theory Spec2Isabelle
  imports Main "HOL-Library.Word" "HOL-Library.Signed_Division" "HOL-Library.AList"
begin

unbundle bit_operations_syntax

section \<open>Wire codec (X11NativeDisplay.cpp, Impl::read16 .. Impl::write32)\<close>

text \<open>
  The server keeps every request, reply and event in a C array of \<open>uint8_t\<close>.  An array is
  modelled as a function from index to byte, so that a freshly declared (uninitialised)
  array is an arbitrary function and a store is a function update.
\<close>

type_synonym byte = "8 word"
type_synonym u16 = "16 word"
type_synonym u32 = "32 word"
type_synonym buffer = "nat \<Rightarrow> byte"

definition kX11ConnectionAccepted :: byte where "kX11ConnectionAccepted = 1"
definition kX11Major :: u16 where "kX11Major = 11"
definition kX11Minor :: u16 where "kX11Minor = 0"
definition kRootWindowId :: u32 where "kRootWindowId = 1"
definition kDefaultColormapId :: u32 where "kDefaultColormapId = 1"
definition kWhitePixel :: u32 where "kWhitePixel = 0xffffff"
definition kBlackPixel :: u32 where "kBlackPixel = 0x000000"
definition kDefaultVisualId :: u32 where "kDefaultVisualId = 0x21"

definition read16 :: "bool \<Rightarrow> buffer \<Rightarrow> nat \<Rightarrow> u16" where
  "read16 msbFirst p off =
     (if msbFirst then push_bit 8 (ucast (p off)) OR ucast (p (off + 1))
      else ucast (p off) OR push_bit 8 (ucast (p (off + 1))))"

definition read32 :: "bool \<Rightarrow> buffer \<Rightarrow> nat \<Rightarrow> u32" where
  "read32 msbFirst p off =
     (if msbFirst then
        push_bit 24 (ucast (p off)) OR push_bit 16 (ucast (p (off + 1)))
          OR push_bit 8 (ucast (p (off + 2))) OR ucast (p (off + 3))
      else
        ucast (p off) OR push_bit 8 (ucast (p (off + 1)))
          OR push_bit 16 (ucast (p (off + 2))) OR push_bit 24 (ucast (p (off + 3))))"

definition write16 :: "bool \<Rightarrow> buffer \<Rightarrow> nat \<Rightarrow> u16 \<Rightarrow> buffer" where
  "write16 msbFirst p off val =
     (if msbFirst then
        p(off := ucast (drop_bit 8 val AND 0xff), off + 1 := ucast (val AND 0xff))
      else
        p(off := ucast (val AND 0xff), off + 1 := ucast (drop_bit 8 val AND 0xff)))"

definition write32 :: "bool \<Rightarrow> buffer \<Rightarrow> nat \<Rightarrow> u32 \<Rightarrow> buffer" where
  "write32 msbFirst p off val =
     (if msbFirst then
        p(off := ucast (drop_bit 24 val AND 0xff), off + 1 := ucast (drop_bit 16 val AND 0xff),
          off + 2 := ucast (drop_bit 8 val AND 0xff), off + 3 := ucast (val AND 0xff))
      else
        p(off := ucast (val AND 0xff), off + 1 := ucast (drop_bit 8 val AND 0xff),
          off + 2 := ucast (drop_bit 16 val AND 0xff), off + 3 := ucast (drop_bit 24 val AND 0xff)))"

text \<open>\<open>memset(p + off, 0, n)\<close>.\<close>

definition memset0 :: "buffer \<Rightarrow> nat \<Rightarrow> nat \<Rightarrow> buffer" where
  "memset0 p off n = (\<lambda>i. if off \<le> i \<and> i < off + n then 0 else p i)"

text \<open>The bytes \<open>p[0] .. p[n-1]\<close>, as handed to \<open>send\<close>.\<close>

definition bytes_of :: "buffer \<Rightarrow> nat \<Rightarrow> byte list" where
  "bytes_of p n = map p [0..<n]"

section \<open>Single-precision arithmetic (the expression \<open>(int)(v * uiScale)\<close>)\<close>

text \<open>
  A C \<open>float\<close> is an IEEE 754 binary32 value.  \<open>Finite m e\<close> stands for the number
  \<open>m * 2^e\<close>; it is a value of the format when \<open>|m| < 2^24\<close>, \<open>e \<ge> -149\<close> and the number is
  below \<open>2^128\<close> in magnitude (the sign of a zero is not recorded: it does not survive
  the conversion to \<open>int\<close>).  \<open>Infinite neg\<close> is an infinity with its sign and \<open>NaN\<close> a
  not-a-number.  Arithmetic rounds to nearest, ties to even, as the hardware does:
  \<open>f32_round neg m e\<close> is the binary32 value nearest to \<open>m * 2^e\<close>, negated when \<open>neg\<close>.
\<close>

datatype f32 = Finite int int | Infinite bool | NaN

text \<open>The number of binary digits of \<open>n\<close>.\<close>

fun bit_length :: "nat \<Rightarrow> nat" where
  "bit_length n = (if n = 0 then 0 else Suc (bit_length (n div 2)))"

declare bit_length.simps [simp del]

text \<open>\<open>m / 2^sh\<close> rounded to the nearest integer, a tie going to the even one.\<close>

definition roundShift :: "nat \<Rightarrow> nat \<Rightarrow> nat" where
  "roundShift m sh =
     (let q = m div 2 ^ sh; r = m mod 2 ^ sh
      in if 2 * r > 2 ^ sh \<or> (2 * r = 2 ^ sh \<and> odd q) then q + 1 else q)"

text \<open>
  Rounding keeps 24 significant bits, or fewer where the result is subnormal (no bit below
  \<open>2^-149\<close>); a rounded magnitude of \<open>2^128\<close> or more overflows to an infinity.
\<close>

definition f32_round :: "bool \<Rightarrow> nat \<Rightarrow> int \<Rightarrow> f32" where
  "f32_round neg m e =
     (let sh = nat (max (int (bit_length m) - 24) (- 149 - e));
          m' = roundShift m sh;
          e' = e + int sh
      in if int (bit_length m') + e' > 128 then Infinite neg
         else Finite (if neg then - int m' else int m') e')"

text \<open>The conversion \<open>(float)v\<close> of an \<open>int\<close>, and the product of two floats.\<close>

definition f32_of_int :: "int \<Rightarrow> f32" where
  "f32_of_int v = f32_round (v < 0) (nat \<bar>v\<bar>) 0"

fun f32_mul :: "f32 \<Rightarrow> f32 \<Rightarrow> f32" where
  "f32_mul (Finite a ea) (Finite b eb) = f32_round ((a < 0) \<noteq> (b < 0)) (nat \<bar>a * b\<bar>) (ea + eb)"
| "f32_mul (Finite a ea) (Infinite k) = (if a = 0 then NaN else Infinite ((a < 0) \<noteq> k))"
| "f32_mul (Infinite n) (Finite b eb) = (if b = 0 then NaN else Infinite (n \<noteq> (b < 0)))"
| "f32_mul (Infinite n) (Infinite k) = Infinite (n \<noteq> k)"
| "f32_mul NaN y = NaN"
| "f32_mul (Finite a ea) NaN = NaN"
| "f32_mul (Infinite n) NaN = NaN"

text \<open>
  The conversion \<open>(int)x\<close> truncates toward zero.  Its behaviour is undefined when the
  truncated value is not an \<open>int\<close> (out of the 32-bit range, an infinity, a NaN): \<open>None\<close>.
\<close>

definition f32_to_int :: "f32 \<Rightarrow> int option" where
  "f32_to_int x =
     (case x of
        Finite m e \<Rightarrow>
          (let t = (if e \<ge> 0 then m * 2 ^ nat e else sgn m * (\<bar>m\<bar> div 2 ^ nat (- e)))
           in if - 2147483648 \<le> t \<and> t < 2147483648 then Some t else None)
      | Infinite neg \<Rightarrow> None
      | NaN \<Rightarrow> None)"

text \<open>\<open>(int)(v * uiScale)\<close>: \<open>v\<close> is converted to \<open>float\<close>, multiplied, and truncated.\<close>

definition scaleDim :: "int \<Rightarrow> f32 \<Rightarrow> int option" where
  "scaleDim v uiScale = f32_to_int (f32_mul (f32_of_int v) uiScale)"

section \<open>Server state (struct X11NativeDisplay::Impl)\<close>

text \<open>
  \<open>struct WindowPos { int x, y; uint32_t parent; }\<close> and \<open>struct PixmapData\<close>.  A C \<open>int\<close>
  is an integer of the 32-bit range; the places where the source narrows a value
  (\<open>(uint16_t)\<close>, \<open>(int16_t)\<close>) are written out, and so is the wrap-around of the
  32-bit additions and subtractions on window coordinates: \<open>i32 v\<close> is the value the
  two's-complement \<open>int\<close> holds after an operation whose exact result is \<open>v\<close>.
\<close>

definition i32 :: "int \<Rightarrow> int" where
  "i32 v = (v + 2147483648) mod 4294967296 - 2147483648"

record WindowPos =
  pos_x :: int
  pos_y :: int
  pos_parent :: u32

record PixmapData =
  pix_w :: int
  pix_h :: int
  pixels :: "u32 list"

text \<open>
  The fields of \<open>Impl\<close> that the request handlers read or write.  \<open>unordered_map\<close>s that
  are only looked up by key are partial functions; \<open>windowPositions\<close>, which the source
  also iterates over, is an association list handled through \<open>map_of\<close>, \<open>AList.update\<close>
  and \<open>AList.delete\<close>.  Atom names (\<open>std::string\<close>) are byte lists.  Of the three
  \<open>std::thread\<close> members the state keeps what \<open>detachSurface\<close> depends on:
  \<open>serverThreadJoinable\<close> and \<open>renderThreadJoinable\<close> are \<open>joinable()\<close> of the server and
  the render thread, and \<open>serverLoopReturned\<close> says that \<open>serverLoop\<close> has returned
  (\<open>renderThreadExited\<close> is the source's own flag for \<open>renderLoop\<close>).
\<close>

record Impl =
  displayNumber :: int
  width :: int
  height :: int
  msbFirst :: bool
  framebuffer :: "u32 list"
  childWindows :: "u32 list"
  windowSizes :: "u32 \<rightharpoonup> int \<times> int"
  windowPositions :: "(u32 \<times> WindowPos) list"
  unmappedWindows :: "u32 set"
  windowEventMasks :: "u32 \<rightharpoonup> u32"
  originalChildW :: int
  originalChildH :: int
  pluginWidth :: int
  pluginHeight :: int
  uiScale :: f32
  pixmaps :: "u32 \<rightharpoonup> PixmapData"
  atomNameToId :: "byte list \<rightharpoonup> u32"
  atomIdToName :: "u32 \<rightharpoonup> byte list"
  nextAtomId :: u32
  detachDeferred :: bool
  closingGracefully :: bool
  running :: bool
  renderThreadRunning :: bool
  pluginUIRunning :: bool
  serverThreadJoinable :: bool
  serverLoopReturned :: bool
  renderThreadJoinable :: bool
  renderThreadExited :: bool
  clientFd :: int
  serverFd :: int

text \<open>Events the server writes to the client socket, by their payload fields.\<close>

datatype event =
    Expose u32 u16 u16
  | ConfigureNotify u32 u16 u16

section \<open>Ancestor offsets (Impl::getAbsolutePos)\<close>

text \<open>
  The \<open>for (int depth = 0; depth < 32; depth++)\<close> loop.  The third component of the result
  counts how many times the loop body was entered; it is instrumentation for the bound on
  the walk and is dropped by \<open>getAbsolutePos\<close>.
\<close>

function getAbsolutePos_loop :: "Impl \<Rightarrow> nat \<Rightarrow> u32 \<Rightarrow> int \<Rightarrow> int \<Rightarrow> int \<times> int \<times> nat" where
  "getAbsolutePos_loop s depth cur ax ay =
     (if depth < 32 then
        (case map_of (windowPositions s) cur of
           None \<Rightarrow> (ax, ay, Suc depth)
         | Some it \<Rightarrow>
             (let ax' = i32 (ax + pos_x it); ay' = i32 (ay + pos_y it); cur' = pos_parent it
              in if childWindows s \<noteq> [] \<and> cur' = hd (childWindows s) then (ax', ay', Suc depth)
                 else if cur' = kRootWindowId \<or> cur' = 0 then (ax', ay', Suc depth)
                 else getAbsolutePos_loop s (Suc depth) cur' ax' ay'))
      else (ax, ay, depth))"
  by pat_completeness auto
termination
  by (relation "measure (\<lambda>(s, depth, cur, ax, ay). 32 - depth)") auto

declare getAbsolutePos_loop.simps [simp del]

definition getAbsolutePos :: "Impl \<Rightarrow> u32 \<Rightarrow> int \<times> int" where
  "getAbsolutePos s wid = (case getAbsolutePos_loop s 0 wid 0 0 of (ax, ay, n) \<Rightarrow> (ax, ay))"

definition getAbsolutePos_iterations :: "Impl \<Rightarrow> u32 \<Rightarrow> nat" where
  "getAbsolutePos_iterations s wid = (case getAbsolutePos_loop s 0 wid 0 0 of (ax, ay, n) \<Rightarrow> n)"

section \<open>Connection setup (Impl::serverLoop handshake, Impl::sendConnectionReply)\<close>

text \<open>
  On accept the server clears the window tables and the pixmaps, reads the 12-byte
  connection request and sets \<open>msbFirst_ = (req[0] == 0x42)\<close>.
\<close>

definition acceptClient :: "Impl \<Rightarrow> buffer \<Rightarrow> Impl" where
  "acceptClient s req =
     s\<lparr>childWindows := [], windowSizes := Map.empty, windowPositions := [],
       unmappedWindows := {}, pixmaps := Map.empty, msbFirst := (req 0 = 0x42)\<rparr>"

text \<open>
  \<open>sendConnectionReply\<close> fills \<open>uint8_t body[120]\<close> (uninitialised: the argument \<open>body0\<close>)
  through a running offset \<open>off\<close> and sends the first \<open>off\<close> bytes.  \<open>(uint16_t)\<close> is
  \<open>word_of_int\<close> and C's \<open>/\<close> truncates (\<open>sdiv\<close>); the products \<open>width * 254\<close> stay far
  below \<open>2^31\<close> for any real surface.  The result is the byte sequence handed to
  \<open>sendAllLocked\<close>.
\<close>

definition sendConnectionReply :: "Impl \<Rightarrow> buffer \<Rightarrow> byte list" where
  "sendConnectionReply s body0 =
    (let off = (0::nat);
         body = body0(off := kX11ConnectionAccepted); off = off + 1;
         body = body(off := 0); off = off + 1;
         body = write16 (msbFirst s) body (off + 0) kX11Major; off = off + 2;
         body = write16 (msbFirst s) body (off + 0) kX11Minor; off = off + 2;
         body = write16 (msbFirst s) body (off + 0) 28; off = off + 2;
         body = write32 (msbFirst s) body (off + 0) 0;
         body = write32 (msbFirst s) body (off + 4) 0x00200000;
         body = write32 (msbFirst s) body (off + 8) 0x001FFFFF;
         body = write32 (msbFirst s) body (off + 12) 256;
         body = write16 (msbFirst s) body (off + 16) 0;
         off = off + 18;
         body = write16 (msbFirst s) body (off + 0) 32767; off = off + 2;
         body = body(off := 1); off = off + 1;
         body = body(off := 1); off = off + 1;
         body = body(off := (if msbFirst s then 1 else 0)); off = off + 1;
         body = body(off := (if msbFirst s then 1 else 0)); off = off + 1;
         body = body(off := 8); off = off + 1;
         body = body(off := 8); off = off + 1;
         body = body(off := 8); off = off + 1;
         body = body(off := 255); off = off + 1;
         body = body(off := 0); off = off + 1;
         body = body(off := 0); off = off + 1;
         body = body(off := 0); off = off + 1;
         body = body(off := 0); off = off + 1;
         body = body(off := 24); off = off + 1;
         body = body(off := 32); off = off + 1;
         body = write16 (msbFirst s) body (off + 0) 32; off = off + 2;
         body = memset0 body off 4; off = off + 4;
         body = write32 (msbFirst s) body (off + 0) kRootWindowId;
         body = write32 (msbFirst s) body (off + 4) kDefaultColormapId;
         body = write32 (msbFirst s) body (off + 8) kWhitePixel;
         body = write32 (msbFirst s) body (off + 12) kBlackPixel;
         body = write32 (msbFirst s) body (off + 16) 0;
         body = write16 (msbFirst s) body (off + 20) (word_of_int (width s));
         body = write16 (msbFirst s) body (off + 22) (word_of_int (height s));
         body = write16 (msbFirst s) body (off + 24) (word_of_int ((width s * 254) sdiv 100));
         body = write16 (msbFirst s) body (off + 26) (word_of_int ((height s * 254) sdiv 100));
         body = write16 (msbFirst s) body (off + 28) 0;
         body = write16 (msbFirst s) body (off + 30) 0;
         body = write32 (msbFirst s) body (off + 32) kDefaultVisualId;
         body = body(off + 36 := 0); body = body(off + 37 := 0);
         body = body(off + 38 := 24); body = body(off + 39 := 1);
         off = off + 40;
         body = body(off := 24); off = off + 1;
         body = body(off := 0); off = off + 1;
         body = write16 (msbFirst s) body (off + 0) 1; off = off + 2;
         body = memset0 body off 4; off = off + 4;
         body = write32 (msbFirst s) body (off + 0) kDefaultVisualId;
         body = body(off + 4 := 4); body = body(off + 5 := 32);
         body = write16 (msbFirst s) body (off + 6) 256;
         body = write32 (msbFirst s) body (off + 8) 0xff0000;
         body = write32 (msbFirst s) body (off + 12) 0x00ff00;
         body = write32 (msbFirst s) body (off + 16) 0x0000ff;
         body = memset0 body (off + 20) 4;
         off = off + 24
     in bytes_of body off)"

text \<open>
  The wire format in the specification's words: a 16- or 32-bit field travels most
  significant byte first when the client declared \<open>0x42\<close>, least significant byte first
  otherwise.  \<open>enc16\<close>, \<open>enc32\<close> and \<open>setupReplyLayout\<close> are the reference the code's
  reply is compared with: the X11 connection-setup success block for one screen, one
  pixmap format, one depth and one visual.
\<close>

definition enc16 :: "bool \<Rightarrow> u16 \<Rightarrow> byte list" where
  "enc16 msb v = (let hi = ucast (drop_bit 8 v); lo = ucast v
                  in if msb then [hi, lo] else [lo, hi])"

definition enc32 :: "bool \<Rightarrow> u32 \<Rightarrow> byte list" where
  "enc32 msb v = (let b3 = ucast (drop_bit 24 v); b2 = ucast (drop_bit 16 v);
                      b1 = ucast (drop_bit 8 v); b0 = ucast v
                  in if msb then [b3, b2, b1, b0] else [b0, b1, b2, b3])"

definition setupReplyLayout :: "bool \<Rightarrow> int \<Rightarrow> int \<Rightarrow> byte list" where
  "setupReplyLayout msb w h =
     [1, 0] @ enc16 msb 11 @ enc16 msb 0 @ enc16 msb 28
     @ enc32 msb 0 @ enc32 msb 0x00200000 @ enc32 msb 0x001FFFFF @ enc32 msb 256
     @ enc16 msb 0 @ enc16 msb 32767
     @ [1, 1, (if msb then 1 else 0), (if msb then 1 else 0), 8, 8, 8, 255, 0, 0, 0, 0]
     @ [24, 32] @ enc16 msb 32 @ [0, 0, 0, 0]
     @ enc32 msb 1 @ enc32 msb 1 @ enc32 msb 0xffffff @ enc32 msb 0 @ enc32 msb 0
     @ enc16 msb (word_of_int w) @ enc16 msb (word_of_int h)
     @ enc16 msb (word_of_int ((w * 254) sdiv 100))
     @ enc16 msb (word_of_int ((h * 254) sdiv 100))
     @ enc16 msb 0 @ enc16 msb 0 @ enc32 msb 0x21 @ [0, 0, 24, 1]
     @ [24, 0] @ enc16 msb 1 @ [0, 0, 0, 0]
     @ enc32 msb 0x21 @ [4, 32] @ enc16 msb 256
     @ enc32 msb 0xff0000 @ enc32 msb 0x00ff00 @ enc32 msb 0x0000ff @ [0, 0, 0, 0]"

section \<open>Window requests (Impl::serverLoop, the switch on the opcode)\<close>

text \<open>
  Each handler takes the state and the request buffer \<open>buf\<close> as the dispatch loop left it
  (header in bytes 0..3, body from byte 4) and returns the new state with the events it
  wrote to the socket, in order.  Fields are read with \<open>read16\<close>/\<open>read32\<close> at the source's
  offsets; \<open>(int)(int16_t)\<close> and \<open>(int)(int32_t)\<close> are \<open>sint\<close>, \<open>(int)\<close> of a \<open>uint16_t\<close> is
  \<open>uint\<close>, and \<open>(uint16_t)\<close> of an \<open>int\<close> is \<open>word_of_int\<close>.
\<close>

definition bgX11 :: u32 where "bgX11 = 0xFF302020"

text \<open>\<open>std::vector::resize(n, v)\<close>: keeps the first \<open>n\<close> elements, pads with \<open>v\<close>.\<close>

definition vector_resize :: "nat \<Rightarrow> 'a \<Rightarrow> 'a list \<Rightarrow> 'a list" where
  "vector_resize n v xs = take n xs @ replicate (n - length xs) v"

text \<open>
  CreateWindow.  The handler's \<open>length == 0\<close> check cannot fire: the dispatch loop has
  already diverted a zero length to the BigRequests path.
\<close>

definition handleCreateWindow :: "Impl \<Rightarrow> buffer \<Rightarrow> Impl \<times> event list" where
  "handleCreateWindow s buf =
     (let wid = read32 (msbFirst s) buf 4;
          parentWid = read32 (msbFirst s) buf 8;
          winX = sint (read16 (msbFirst s) buf 12);
          winY = sint (read16 (msbFirst s) buf 14);
          winWidth = uint (read16 (msbFirst s) buf 16);
          winHeight = uint (read16 (msbFirst s) buf 18);
          s1 = s\<lparr>windowSizes := (windowSizes s)(wid \<mapsto> (winWidth, winHeight)),
                 windowPositions :=
                   AList.update wid \<lparr>pos_x = winX, pos_y = winY, pos_parent = parentWid\<rparr>
                     (windowPositions s),
                 childWindows := childWindows s @ [wid],
                 unmappedWindows := insert wid (unmappedWindows s)\<rparr>;
          s2 = (if pluginWidth s1 = 0 \<and> winWidth > 0 \<and> winHeight > 0 then
                  s1\<lparr>originalChildW := winWidth, originalChildH := winHeight,
                     pluginWidth := winWidth, pluginHeight := winHeight,
                     framebuffer := replicate (nat (winWidth * winHeight)) bgX11\<rparr>
                else s1)
      in (s2, [Expose wid (word_of_int winWidth) (word_of_int winHeight)]))"

text \<open>
  MapWindow raises the subtree of a popup.  The subtree is collected by repeated passes
  over \<open>windowPositions\<close> until a pass adds nothing (\<open>while (changed)\<close>); the
  \<open>unordered_set\<close> is a duplicate-free list here, its order being irrelevant because the
  source sorts it before use.
\<close>

fun bfs_pass :: "(u32 \<times> WindowPos) list \<Rightarrow> u32 list \<Rightarrow> bool \<Rightarrow> u32 list \<times> bool" where
  "bfs_pass [] subtree changed = (subtree, changed)"
| "bfs_pass ((cw, pos) # rest) subtree changed =
     (if pos_parent pos \<in> set subtree \<and> cw \<notin> set subtree
      then bfs_pass rest (cw # subtree) True
      else bfs_pass rest subtree changed)"

function bfs_subtree :: "(u32 \<times> WindowPos) list \<Rightarrow> u32 list \<Rightarrow> u32 list" where
  "bfs_subtree positions subtree =
     (case bfs_pass positions subtree False of
        (subtree', changed) \<Rightarrow> if changed then bfs_subtree positions subtree' else subtree')"
  by pat_completeness auto

lemma bfs_pass_mono: "set subtree \<subseteq> set (fst (bfs_pass ps subtree c))"
  by (induction ps subtree c rule: bfs_pass.induct) auto

lemma bfs_pass_keys: "set (fst (bfs_pass ps subtree c)) \<subseteq> set subtree \<union> fst ` set ps"
proof (induction ps subtree c rule: bfs_pass.induct)
  case (1 subtree changed)
  then show ?case by simp
next
  case (2 cw pos rest subtree changed)
  then show ?case by (cases "pos_parent pos \<in> set subtree \<and> cw \<notin> set subtree") auto
qed

lemma bfs_pass_changed:
  "snd (bfs_pass ps subtree c) \<Longrightarrow>
     c \<or> (\<exists>k \<in> fst ` set ps. k \<notin> set subtree \<and> k \<in> set (fst (bfs_pass ps subtree c)))"
proof (induction ps subtree c rule: bfs_pass.induct)
  case (1 subtree changed)
  then show ?case by simp
next
  case (2 cw pos rest subtree changed)
  show ?case
  proof (cases "pos_parent pos \<in> set subtree \<and> cw \<notin> set subtree")
    case True
    have "cw \<in> set (fst (bfs_pass rest (cw # subtree) True))"
      using bfs_pass_mono [of "cw # subtree" rest True] by auto
    with True show ?thesis by auto
  next
    case False
    with 2 show ?thesis by auto
  qed
qed

lemma bfs_pass_decreases:
  assumes "bfs_pass ps subtree False = (subtree', True)"
  shows "card (fst ` set ps - set subtree') < card (fst ` set ps - set subtree)"
proof -
  have m: "set subtree \<subseteq> set subtree'"
    using bfs_pass_mono [of subtree ps False] assms by simp
  have "snd (bfs_pass ps subtree False)" using assms by simp
  from bfs_pass_changed [OF this]
  obtain k where k: "k \<in> fst ` set ps" "k \<notin> set subtree" "k \<in> set subtree'"
    using assms by auto
  have "fst ` set ps - set subtree' \<subset> fst ` set ps - set subtree"
    using m k by auto
  then show ?thesis by (intro psubset_card_mono) auto
qed

termination bfs_subtree
  by (relation "measure (\<lambda>(ps, subtree). card (fst ` set ps - set subtree))")
     (auto dest: bfs_pass_decreases [OF sym])

declare bfs_subtree.simps [simp del]

definition handleMapWindow :: "Impl \<Rightarrow> buffer \<Rightarrow> Impl \<times> event list" where
  "handleMapWindow s buf =
     (let wid = read32 (msbFirst s) buf 4;
          s1 = s\<lparr>unmappedWindows := unmappedWindows s - {wid}\<rparr>;
          s2 = (if childWindows s1 \<noteq> [] \<and> wid \<noteq> hd (childWindows s1) then
                  (case map_of (windowPositions s1) wid of
                     None \<Rightarrow> s1
                   | Some pos \<Rightarrow>
                       if pos_parent pos = kRootWindowId then
                         (let subtree = bfs_subtree (windowPositions s1) [wid];
                              toMove = sort subtree
                          in s1\<lparr>childWindows :=
                                  filter (\<lambda>w. w \<notin> set subtree) (childWindows s1) @ toMove\<rparr>)
                       else s1)
                else s1);
          expSize = (case windowSizes s2 wid of
                       Some sz \<Rightarrow> sz
                     | None \<Rightarrow> (width s2, height s2))
      in (s2, [Expose wid (word_of_int (fst expSize)) (word_of_int (snd expSize))]))"

definition handleUnmapWindow :: "Impl \<Rightarrow> buffer \<Rightarrow> Impl \<times> event list" where
  "handleUnmapWindow s buf =
     (let umWid = read32 (msbFirst s) buf 4;
          s1 = s\<lparr>unmappedWindows := insert umWid (unmappedWindows s)\<rparr>;
          evs = (if childWindows s1 \<noteq> [] \<and> umWid \<noteq> hd (childWindows s1) then
                   (case map_of (windowPositions s1) umWid of
                      None \<Rightarrow> []
                    | Some pos \<Rightarrow>
                        if pos_parent pos = kRootWindowId then
                          (let topWin = hd (childWindows s1)
                           in case windowSizes s1 topWin of
                                None \<Rightarrow> []
                              | Some sz \<Rightarrow>
                                  [Expose topWin (word_of_int (fst sz)) (word_of_int (snd sz))])
                        else [])
                 else [])
      in (s1, evs))"

text \<open>DestroyWindow, after its own 4-byte body read into \<open>buf + 4\<close>.\<close>

definition handleDestroyWindow :: "Impl \<Rightarrow> buffer \<Rightarrow> Impl \<times> event list" where
  "handleDestroyWindow s buf =
     (let window = read32 (msbFirst s) buf 4
      in (s\<lparr>windowEventMasks := (windowEventMasks s)(window := None),
            windowSizes := (windowSizes s)(window := None),
            windowPositions := AList.delete window (windowPositions s),
            unmappedWindows := unmappedWindows s - {window},
            childWindows := removeAll window (childWindows s)\<rparr>, []))"

text \<open>
  ConfigureWindow (opcodes 5 and 9 fall through to the same code).  The two position
  blocks are \<open>cfgSetX\<close> and \<open>cfgSetY\<close>; each returns whether it changed the stored
  value.  \<open>windowSizes[cfgWid]\<close> default-constructs a missing entry as \<open>(0, 0)\<close>.
\<close>

definition cfgSetX :: "Impl \<Rightarrow> u32 \<Rightarrow> int \<Rightarrow> Impl \<times> bool" where
  "cfgSetX s cfgWid newX =
     (case map_of (windowPositions s) cfgWid of
        None \<Rightarrow> (s, False)
      | Some p \<Rightarrow>
          if pos_x p \<noteq> newX then
            (s\<lparr>windowPositions := AList.update cfgWid (p\<lparr>pos_x := newX\<rparr>) (windowPositions s)\<rparr>,
             True)
          else (s, False))"

definition cfgSetY :: "Impl \<Rightarrow> u32 \<Rightarrow> int \<Rightarrow> Impl \<times> bool" where
  "cfgSetY s cfgWid newY =
     (case map_of (windowPositions s) cfgWid of
        None \<Rightarrow> (s, False)
      | Some p \<Rightarrow>
          if pos_y p \<noteq> newY then
            (s\<lparr>windowPositions := AList.update cfgWid (p\<lparr>pos_y := newY\<rparr>) (windowPositions s)\<rparr>,
             True)
          else (s, False))"

text \<open>The size block: runs when the window is in \<open>childWindows\<close> and a positive width or
  height was given.\<close>

definition cfgResize :: "Impl \<Rightarrow> u32 \<Rightarrow> int \<Rightarrow> int \<Rightarrow> Impl \<times> event list" where
  "cfgResize s2 cfgWid newW newH =
     (if cfgWid \<in> set (childWindows s2) \<and> (newW > 0 \<or> newH > 0) then
        (let stored = (case windowSizes s2 cfgWid of Some sz \<Rightarrow> sz | None \<Rightarrow> (0, 0));
             finalW = (if newW > 0 then newW else fst stored);
             finalH = (if newH > 0 then newH else snd stored);
             sizeChanged =
               (if cfgWid = hd (childWindows s2)
                then finalW \<noteq> pluginWidth s2 \<or> finalH \<noteq> pluginHeight s2
                else finalW \<noteq> fst stored \<or> finalH \<noteq> snd stored);
             s3 = s2\<lparr>windowSizes := (windowSizes s2)(cfgWid \<mapsto> (finalW, finalH))\<rparr>;
             isTopLevel = (childWindows s3 \<noteq> [] \<and> cfgWid = hd (childWindows s3));
             s4 = (if sizeChanged \<and> isTopLevel then
                     s3\<lparr>pluginWidth := finalW, pluginHeight := finalH,
                        framebuffer :=
                          vector_resize (nat (finalW * finalH)) bgX11 (framebuffer s3)\<rparr>
                   else s3)
         in (s4, if sizeChanged then
                   [ConfigureNotify cfgWid (word_of_int finalW) (word_of_int finalH),
                    Expose cfgWid (word_of_int finalW) (word_of_int finalH)]
                 else []))
      else (s2, []))"

text \<open>The Expose for the top-level window after a move: \<open>exposeTopWid\<close> with
  \<open>exposeTopW\<close>, \<open>exposeTopH\<close>, captured after the position block.\<close>

definition cfgMoveExpose :: "Impl \<Rightarrow> bool \<Rightarrow> event list" where
  "cfgMoveExpose s2 posChanged =
     (let exposeTopWid = (if posChanged \<and> childWindows s2 \<noteq> [] then hd (childWindows s2) else 0);
          exposeTop = (if posChanged \<and> childWindows s2 \<noteq> [] then
                         (case windowSizes s2 (hd (childWindows s2)) of
                            Some sz \<Rightarrow> sz | None \<Rightarrow> (0, 0))
                       else (0, 0))
      in if posChanged \<and> exposeTopWid \<noteq> 0 \<and> fst exposeTop > 0 \<and> snd exposeTop > 0
         then [Expose exposeTopWid (word_of_int (fst exposeTop)) (word_of_int (snd exposeTop))]
         else [])"

definition handleConfigureWindow :: "Impl \<Rightarrow> buffer \<Rightarrow> Impl \<times> event list" where
  "handleConfigureWindow s buf =
     (let msb = msbFirst s;
          cfgWid = read32 msb buf 4;
          vmask = read16 msb buf 8;
          valOff0 = (12::nat);
          rx = (if vmask AND 0x0001 \<noteq> 0
                then cfgSetX s cfgWid (sint (read32 msb buf valOff0)) else (s, False));
          valOff1 = (if vmask AND 0x0001 \<noteq> 0 then valOff0 + 4 else valOff0);
          ry = (if vmask AND 0x0002 \<noteq> 0
                then cfgSetY (fst rx) cfgWid (sint (read32 msb buf valOff1)) else (fst rx, False));
          valOff2 = (if vmask AND 0x0002 \<noteq> 0 then valOff1 + 4 else valOff1);
          s2 = fst ry;
          posChanged = (snd rx \<or> snd ry);
          evs2 = cfgMoveExpose s2 posChanged;
          hasW = (vmask AND 0x0004 \<noteq> 0 \<and> valOff2 + 4 \<le> 256);
          newW = (if hasW then sint (read32 msb buf valOff2) else - 1);
          valOff3 = (if hasW then valOff2 + 4 else valOff2);
          hasH = (vmask AND 0x0008 \<noteq> 0 \<and> valOff3 + 4 \<le> 256);
          newH = (if hasH then sint (read32 msb buf valOff3) else - 1);
          rs = cfgResize s2 cfgWid newW newH
      in (fst rs, snd rs @ evs2))"

text \<open>
  GetGeometry and its reply (\<open>sendReplyGetGeometry\<close>: depth 24, border width 0).  The
  handler has no result where the conversion of the scaled size to \<open>int\<close> is undefined.
\<close>

record GeometryReply =
  geo_root :: u32
  geo_x :: u16
  geo_y :: u16
  geo_width :: u16
  geo_height :: u16

definition sendReplyGetGeometry :: "u32 \<Rightarrow> int \<Rightarrow> int \<Rightarrow> int \<Rightarrow> int \<Rightarrow> GeometryReply" where
  "sendReplyGetGeometry root gx gy gw gh =
     \<lparr>geo_root = root, geo_x = word_of_int gx, geo_y = word_of_int gy,
      geo_width = word_of_int gw, geo_height = word_of_int gh\<rparr>"

definition handleGetGeometry :: "Impl \<Rightarrow> buffer \<Rightarrow> GeometryReply option" where
  "handleGetGeometry s buf =
     (let drawable = read32 (msbFirst s) buf 4;
          geoSize =
            (case windowSizes s drawable of
               Some sz \<Rightarrow> Some sz
             | None \<Rightarrow>
                 if drawable = kRootWindowId \<and> originalChildW s > 0 then
                   (case (scaleDim (originalChildW s) (uiScale s),
                          scaleDim (originalChildH s) (uiScale s)) of
                      (Some geoWidth, Some geoHeight) \<Rightarrow>
                        Some (if geoWidth < 1 then 1 else geoWidth,
                              if geoHeight < 1 then 1 else geoHeight)
                    | _ \<Rightarrow> None)
                 else Some (width s, height s));
          geoPos = (case map_of (windowPositions s) drawable of
                      Some p \<Rightarrow> (pos_x p, pos_y p)
                    | None \<Rightarrow> (0, 0))
      in case geoSize of
           None \<Rightarrow> None
         | Some sz \<Rightarrow>
             Some (sendReplyGetGeometry kRootWindowId (fst geoPos) (snd geoPos) (fst sz) (snd sz)))"

section \<open>Hit testing (Impl::hitTestChildWindow)\<close>

record HitResult =
  hit_wid :: u32
  localX :: int
  localY :: int

text \<open>
  The loop \<open>for (i = size - 1; i >= 1; i--)\<close> visits \<open>rev (tl childWindows)\<close>; \<open>None\<close> means
  it ran to the end without a \<open>break\<close>.
\<close>

fun hitTest_loop :: "Impl \<Rightarrow> int \<Rightarrow> int \<Rightarrow> u32 list \<Rightarrow> HitResult option" where
  "hitTest_loop s px py [] = None"
| "hitTest_loop s px py (wid # rest) =
     (if wid \<in> unmappedWindows s then hitTest_loop s px py rest
      else
        (case (map_of (windowPositions s) wid, windowSizes s wid) of
           (Some pos, Some sz) \<Rightarrow>
             (let absPos = getAbsolutePos s wid;
                  wx = fst absPos; wy = snd absPos;
                  ww = fst sz; wh = snd sz
              in if px \<ge> wx \<and> px < i32 (wx + ww) \<and> py \<ge> wy \<and> py < i32 (wy + wh)
                 then Some \<lparr>hit_wid = wid, localX = i32 (px - wx), localY = i32 (py - wy)\<rparr>
                 else hitTest_loop s px py rest)
         | _ \<Rightarrow> hitTest_loop s px py rest))"

definition hitTestChildWindow :: "Impl \<Rightarrow> int \<Rightarrow> int \<Rightarrow> HitResult" where
  "hitTestChildWindow s px py =
     (let topWin = (if childWindows s = [] then kRootWindowId else hd (childWindows s));
          best = \<lparr>hit_wid = topWin, localX = px, localY = py\<rparr>
      in case hitTest_loop s px py (rev (tl (childWindows s))) of
           Some h \<Rightarrow> h
         | None \<Rightarrow> best)"

section \<open>Teardown requests (X11NativeDisplay::signalDetach, detachSurface)\<close>

text \<open>The per-display record of DisplayState.h and its global table \<open>displayStates()\<close>.\<close>

datatype Phase = PhaseNone | Attached | Creating | Ready | Destroying

record DisplayState =
  phase :: Phase
  pluginIndex :: int
  detachPending :: bool

text \<open>
  Modelled from the spec: the body of \<open>isCreatingPluginUIForDisplay\<close> (declared in
  PluginUIGuard.h, defined in a file that is not among the sources).  The header says it
  is true while plugin UI creation is in progress for the display number; the
  specification calls that state \<open>Creating\<close> of the per-display state record.
\<close>

definition isCreatingPluginUIForDisplay :: "(int \<rightharpoonup> DisplayState) \<Rightarrow> int \<Rightarrow> bool" where
  "isCreatingPluginUIForDisplay displayStates n =
     (case displayStates n of None \<Rightarrow> False | Some st \<Rightarrow> phase st = Creating)"

text \<open>\<open>signalDetach\<close> returns whether the detach was deferred (\<open>closeStartTime\<close> is a clock
  reading and is not part of the state here).\<close>

definition signalDetach :: "(int \<rightharpoonup> DisplayState) \<Rightarrow> Impl \<Rightarrow> bool \<times> Impl" where
  "signalDetach displayStates s =
     (if isCreatingPluginUIForDisplay displayStates (displayNumber s) then
        (True, s\<lparr>detachDeferred := True\<rparr>)
      else if closingGracefully s then (False, s)
      else (False, s\<lparr>closingGracefully := True\<rparr>))"

text \<open>
  \<open>detachSurface\<close>, on the caller's thread.  It either returns, or never returns because it
  waits in \<open>join()\<close> for a thread that does not end; the state is then the one at the
  \<open>join\<close>.  The plugin UI thread leaves \<open>pluginUILoop\<close> once \<open>pluginUIRunning\<close> is false (after
  running the tasks still queued, which are taken to return), so its \<open>join\<close> returns.
  \<open>serverLoop\<close> returns when it reads \<open>running\<close> as false or when \<open>socket\<close>, \<open>bind\<close>,
  \<open>listen\<close> or \<open>accept\<close> fails; neither \<open>signalDetach\<close> nor \<open>detachSurface\<close> clears
  \<open>running\<close> or closes a socket before the \<open>join\<close>, so the \<open>join\<close> of a server thread
  that has not returned by then never returns.  \<open>renderLoop\<close> ends when
  \<open>renderThreadRunning\<close> is false or a buffer swap fails, and \<open>detachSurface\<close> does not
  clear that flag either.
\<close>

datatype detach_result = Returned Impl | BlockedInJoin Impl

definition detachSurface :: "(int \<rightharpoonup> DisplayState) \<Rightarrow> Impl \<Rightarrow> detach_result" where
  "detachSurface displayStates s =
     (if clientFd s < 0 \<and> \<not> serverThreadJoinable s then Returned s
      else
        (case signalDetach displayStates s of
           (deferred, s1) \<Rightarrow>
             if deferred then Returned s1
             else
               (let s2 = s1\<lparr>pluginUIRunning := False\<rparr>
                in if serverThreadJoinable s2 \<and> \<not> serverLoopReturned s2 then BlockedInJoin s2
                   else
                     (let s3 = s2\<lparr>serverThreadJoinable := False\<rparr>
                      in if renderThreadJoinable s3 \<and> renderThreadRunning s3 \<and>
                            \<not> renderThreadExited s3
                         then BlockedInJoin s3
                         else Returned (s3\<lparr>renderThreadJoinable := False, framebuffer := [],
                                          clientFd := - 1, serverFd := - 1\<rparr>)))))"

text \<open>
  The create path of NativeBridge.cpp on the table: \<open>nativeBeginCreatePluginUI\<close> enters
  \<open>Creating\<close>; when \<open>createPluginUI\<close> has returned \<open>result\<close>, \<open>nativeCreatePluginUI\<close> leaves
  \<open>Creating\<close> and, if a detach is pending on the table and the creation succeeded, calls
  \<open>destroyPluginUI\<close> (the second component says whether it did).  \<open>operator[]\<close> on the
  table default-constructs a missing record.  None of this reads or writes the display's
  \<open>detachDeferred\<close>, which only the destructor of \<open>X11NativeDisplay\<close> reads.
\<close>

definition nativeBeginCreatePluginUI ::
  "(int \<rightharpoonup> DisplayState) \<Rightarrow> int \<Rightarrow> int \<Rightarrow> (int \<rightharpoonup> DisplayState)" where
  "nativeBeginCreatePluginUI displayStates n idx =
     displayStates(n \<mapsto> \<lparr>phase = Creating, pluginIndex = idx, detachPending = False\<rparr>)"

definition setDisplayPhase ::
  "(int \<rightharpoonup> DisplayState) \<Rightarrow> int \<Rightarrow> Phase \<Rightarrow> (int \<rightharpoonup> DisplayState)" where
  "setDisplayPhase displayStates n ph =
     (case displayStates n of
        None \<Rightarrow> displayStates(n \<mapsto> \<lparr>phase = ph, pluginIndex = - 1, detachPending = False\<rparr>)
      | Some st \<Rightarrow> displayStates(n \<mapsto> st\<lparr>phase := ph\<rparr>))"

definition nativeCreatePluginUI_returned ::
  "(int \<rightharpoonup> DisplayState) \<Rightarrow> int \<Rightarrow> bool \<Rightarrow> (int \<rightharpoonup> DisplayState) \<times> bool" where
  "nativeCreatePluginUI_returned displayStates n result =
     (let pending = (case displayStates n of None \<Rightarrow> False | Some st \<Rightarrow> detachPending st);
          ds1 = (case displayStates n of
                   None \<Rightarrow> displayStates
                 | Some st \<Rightarrow>
                     displayStates(n \<mapsto> st\<lparr>phase := (if result then Ready else PhaseNone)\<rparr>))
      in if pending \<and> result then (setDisplayPhase ds1 n PhaseNone, True) else (ds1, False))"

section \<open>Display lifecycle and concrete clients\<close>

text \<open>
  \<open>newDisplay n\<close> is the state the constructor \<open>X11NativeDisplay(n)\<close> leaves: the default
  member initialisers of \<open>Impl\<close>, with \<open>uiScale = 1.0f\<close>.  \<open>attachSurface\<close> records the
  surface size (at least 1 by 1), fills the framebuffer with the background colour and
  starts the three threads; \<open>setUIScale\<close> stores the host's scale factor.
\<close>

definition newDisplay :: "int \<Rightarrow> Impl" where
  "newDisplay n =
     \<lparr>displayNumber = n, width = 0, height = 0, msbFirst = True, framebuffer = [],
      childWindows = [], windowSizes = Map.empty, windowPositions = [],
      unmappedWindows = {}, windowEventMasks = Map.empty,
      originalChildW = 0, originalChildH = 0, pluginWidth = 0, pluginHeight = 0,
      uiScale = Finite 1 0, pixmaps = Map.empty,
      atomNameToId = Map.empty, atomIdToName = Map.empty, nextAtomId = 1,
      detachDeferred = False, closingGracefully = False, running = False,
      renderThreadRunning = False, pluginUIRunning = False, serverThreadJoinable = False,
      serverLoopReturned = False, renderThreadJoinable = False, renderThreadExited = False,
      clientFd = - 1, serverFd = - 1\<rparr>"

definition attachSurface :: "Impl \<Rightarrow> int \<Rightarrow> int \<Rightarrow> Impl" where
  "attachSurface s w h =
     (let w' = (if w > 0 then w else 1); h' = (if h > 0 then h else 1)
      in s\<lparr>width := w', height := h', framebuffer := replicate (nat (w' * h')) bgX11,
           running := True, renderThreadRunning := True, pluginUIRunning := True,
           renderThreadExited := False, serverThreadJoinable := True,
           serverLoopReturned := False, renderThreadJoinable := True\<rparr>)"


text \<open>
  Requests as an X11 client library puts them on the wire (the core protocol's request
  layouts), used to run the handlers on concrete input.  \<open>mkbuf\<close> is a request buffer
  holding the given bytes from offset 0.
\<close>

definition mkbuf :: "byte list \<Rightarrow> buffer" where
  "mkbuf bs = (\<lambda>i. if i < length bs then bs ! i else 0)"

definition reqCreateWindow :: "bool \<Rightarrow> u32 \<Rightarrow> u32 \<Rightarrow> u16 \<Rightarrow> u16 \<Rightarrow> u16 \<Rightarrow> u16 \<Rightarrow> byte list" where
  "reqCreateWindow msb wid parentWid wx wy ww wh =
     [1, 24] @ enc16 msb 8 @ enc32 msb wid @ enc32 msb parentWid
     @ enc16 msb wx @ enc16 msb wy @ enc16 msb ww @ enc16 msb wh
     @ enc16 msb 0 @ enc16 msb 1 @ enc32 msb 0 @ enc32 msb 0"

definition reqMapWindow :: "bool \<Rightarrow> u32 \<Rightarrow> byte list" where
  "reqMapWindow msb wid = [8, 0] @ enc16 msb 2 @ enc32 msb wid"

definition reqUnmapWindow :: "bool \<Rightarrow> u32 \<Rightarrow> byte list" where
  "reqUnmapWindow msb wid = [10, 0] @ enc16 msb 2 @ enc32 msb wid"

definition reqDestroyWindow :: "bool \<Rightarrow> u32 \<Rightarrow> byte list" where
  "reqDestroyWindow msb wid = [4, 0] @ enc16 msb 2 @ enc32 msb wid"

definition reqGetGeometry :: "bool \<Rightarrow> u32 \<Rightarrow> byte list" where
  "reqGetGeometry msb drawable = [14, 0] @ enc16 msb 2 @ enc32 msb drawable"

text \<open>ConfigureWindow with the value list \<open>vals\<close> for the bits set in \<open>vmask\<close>.\<close>

definition reqConfigureWindow :: "bool \<Rightarrow> u32 \<Rightarrow> u16 \<Rightarrow> u32 list \<Rightarrow> byte list" where
  "reqConfigureWindow msb wid vmask vals =
     [12, 0] @ enc16 msb (word_of_nat (3 + length vals)) @ enc32 msb wid
     @ enc16 msb vmask @ enc16 msb 0 @ concat (map (enc32 msb) vals)"

text \<open>A table whose parent links form a cycle (5 and 6 name each other), and a state
  table in which display 0 is in phase \<open>Creating\<close>.\<close>

definition cyclicTable :: Impl where
  "cyclicTable = (newDisplay 0)\<lparr>childWindows := [3, 5, 6],
     windowPositions := [(5, \<lparr>pos_x = 1, pos_y = 2, pos_parent = 6\<rparr>),
                         (6, \<lparr>pos_x = 10, pos_y = 20, pos_parent = 5\<rparr>)]\<rparr>"

definition creatingStates :: "int \<rightharpoonup> DisplayState" where
  "creatingStates = [0 \<mapsto> \<lparr>phase = Creating, pluginIndex = 2, detachPending = False\<rparr>]"

text \<open>The same table once the creation has succeeded, and display 0 attached to an 800 by
  600 surface.\<close>

definition readyStates :: "int \<rightharpoonup> DisplayState" where
  "readyStates = [0 \<mapsto> \<lparr>phase = Ready, pluginIndex = 2, detachPending = False\<rparr>]"

definition attached0 :: Impl where
  "attached0 = attachSurface (newDisplay 0) 800 600"

section \<open>Request sequences\<close>

text \<open>
  The window requests of one connection, each with the buffer the dispatch loop hands to
  its handler; \<open>run\<close> processes a sequence in order and keeps the state (the events are
  what each handler returned on the way).
\<close>

datatype request =
    CreateWindow buffer
  | MapWindow buffer
  | UnmapWindow buffer
  | DestroyWindow buffer
  | ConfigureWindow buffer

fun step :: "Impl \<Rightarrow> request \<Rightarrow> Impl" where
  "step s (CreateWindow buf) = fst (handleCreateWindow s buf)"
| "step s (MapWindow buf) = fst (handleMapWindow s buf)"
| "step s (UnmapWindow buf) = fst (handleUnmapWindow s buf)"
| "step s (DestroyWindow buf) = fst (handleDestroyWindow s buf)"
| "step s (ConfigureWindow buf) = fst (handleConfigureWindow s buf)"

definition run :: "Impl \<Rightarrow> request list \<Rightarrow> Impl" where
  "run s reqs = foldl step s reqs"

text \<open>A client that declared LSB-first order on an 800 by 600 surface, and some scenes.\<close>

definition lsbClient :: Impl where
  "lsbClient = acceptClient (attachSurface (newDisplay 0) 800 600) (mkbuf [0x6c])"


definition twoChildren :: Impl where
  "twoChildren =
     run lsbClient
       [CreateWindow (mkbuf (reqCreateWindow False 0x200001 1 0 0 8 8)),
        CreateWindow (mkbuf (reqCreateWindow False 0x200002 0x200001 2 1 4 4)),
        CreateWindow (mkbuf (reqCreateWindow False 0x200003 0x200001 3 2 2 2)),
        MapWindow (mkbuf (reqMapWindow False 0x200001)),
        MapWindow (mkbuf (reqMapWindow False 0x200002)),
        MapWindow (mkbuf (reqMapWindow False 0x200003))]"

text \<open>
  A window \<open>0x200005\<close> under the root with a child \<open>0x200003\<close> whose ID is the smaller one,
  created after the top-level window \<open>0x200001\<close>, all three mapped.  The child lies at
  (12, 12) to (28, 28) inside its parent at (8, 8) to (40, 40).
\<close>

definition parentRaised :: Impl where
  "parentRaised =
     run lsbClient
       [CreateWindow (mkbuf (reqCreateWindow False 0x200001 1 0 0 64 64)),
        CreateWindow (mkbuf (reqCreateWindow False 0x200005 1 8 8 32 32)),
        CreateWindow (mkbuf (reqCreateWindow False 0x200003 0x200005 4 4 16 16)),
        MapWindow (mkbuf (reqMapWindow False 0x200001)),
        MapWindow (mkbuf (reqMapWindow False 0x200005)),
        MapWindow (mkbuf (reqMapWindow False 0x200003))]"

section \<open>Properties in the specification's words\<close>

text \<open>
  A window is a candidate for the point \<open>(px, py)\<close> when it is mapped, has a position and a
  size entry, and the point lies inside its absolute bounds: from its \<open>getAbsolutePos\<close>
  offset up to, and excluding, that offset plus its stored size, the sum taken in 32-bit
  arithmetic as the hit test takes it.
\<close>

definition hitCandidate :: "Impl \<Rightarrow> int \<Rightarrow> int \<Rightarrow> u32 \<Rightarrow> bool" where
  "hitCandidate s px py wid =
     (wid \<notin> unmappedWindows s \<and> map_of (windowPositions s) wid \<noteq> None \<and>
      (case windowSizes s wid of
         None \<Rightarrow> False
       | Some sz \<Rightarrow>
           fst (getAbsolutePos s wid) \<le> px \<and> px < i32 (fst (getAbsolutePos s wid) + fst sz) \<and>
           snd (getAbsolutePos s wid) \<le> py \<and> py < i32 (snd (getAbsolutePos s wid) + snd sz)))"

text \<open>
  The three tables keyed by window ID hold the same IDs: the hit-test list, the size table
  and the position table.
\<close>

definition tablesAligned :: "Impl \<Rightarrow> bool" where
  "tablesAligned s =
     (set (childWindows s) = dom (windowSizes s) \<and>
      dom (map_of (windowPositions s)) = dom (windowSizes s))"

text \<open>A parent is created, a child is created inside it, both are mapped, and the
  parent is destroyed.\<close>

definition orphaned :: Impl where
  "orphaned =
     run lsbClient
       [CreateWindow (mkbuf (reqCreateWindow False 0x200001 1 0 0 8 8)),
        CreateWindow (mkbuf (reqCreateWindow False 0x200002 0x200001 2 1 4 4)),
        MapWindow (mkbuf (reqMapWindow False 0x200001)),
        MapWindow (mkbuf (reqMapWindow False 0x200002)),
        DestroyWindow (mkbuf (reqDestroyWindow False 0x200001))]"

text \<open>
  The fields of a ConfigureWindow request in the protocol's words: the window, the
  value mask, and for mask bit \<open>k\<close> (0 = x, 1 = y, 2 = width, 3 = height) the 32-bit value
  that follows the lower set bits' values, the first value being at byte 12.
\<close>

definition cfgWindow :: "Impl \<Rightarrow> buffer \<Rightarrow> u32" where
  "cfgWindow s buf = read32 (msbFirst s) buf 4"

definition cfgHas :: "Impl \<Rightarrow> buffer \<Rightarrow> nat \<Rightarrow> bool" where
  "cfgHas s buf k = (read16 (msbFirst s) buf 8 AND push_bit k 1 \<noteq> 0)"

definition cfgOff :: "Impl \<Rightarrow> buffer \<Rightarrow> nat \<Rightarrow> nat" where
  "cfgOff s buf k = 12 + 4 * length (filter (cfgHas s buf) [0..<k])"

definition cfgVal :: "Impl \<Rightarrow> buffer \<Rightarrow> nat \<Rightarrow> int" where
  "cfgVal s buf k = sint (read32 (msbFirst s) buf (cfgOff s buf k))"

text \<open>
  The first window is destroyed, so the second one becomes \<open>childWindows[0]\<close> while the
  framebuffer keeps the first window's size; then a ConfigureWindow for the second
  window that repeats its stored width and height.  And a ConfigureWindow for a child of
  \<open>twoChildren\<close> that repeats its stored position and size.
\<close>

definition topDestroyed :: Impl where
  "topDestroyed =
     run lsbClient
       [CreateWindow (mkbuf (reqCreateWindow False 0x200001 1 0 0 10 10)),
        CreateWindow (mkbuf (reqCreateWindow False 0x200002 1 0 0 20 20)),
        DestroyWindow (mkbuf (reqDestroyWindow False 0x200001))]"

definition cfgSameSize :: buffer where
  "cfgSameSize = mkbuf (reqConfigureWindow False 0x200002 0x000C [20, 20])"

definition cfgSameAll :: buffer where
  "cfgSameAll = mkbuf (reqConfigureWindow False 0x200002 0x000F [2, 1, 4, 4])"








text \<open>
  A first window of width 0 and a second one 6 by 5; then a ConfigureWindow that gives the
  first (top-level) window a height only, and a third window 100 by 100.
\<close>

definition zeroWidthFirst :: Impl where
  "zeroWidthFirst =
     run lsbClient
       [CreateWindow (mkbuf (reqCreateWindow False 0x200001 1 0 0 0 5)),
        CreateWindow (mkbuf (reqCreateWindow False 0x200002 1 0 0 6 5))]"

definition cfgHeightOnly :: buffer where
  "cfgHeightOnly = mkbuf (reqConfigureWindow False 0x200001 0x0008 [7])"

definition recreated :: Impl where
  "recreated =
     run zeroWidthFirst
       [ConfigureWindow cfgHeightOnly,
        CreateWindow (mkbuf (reqCreateWindow False 0x200003 1 0 0 100 100))]"

section \<open>Reading requests from the socket (Impl::recvAll, Impl::serverLoop)\<close>

text \<open>
  The socket is the list of bytes the client has sent and the server has not read yet.
  \<open>recvAll n\<close> takes the next \<open>n\<close> bytes; when fewer are pending (the peer closed or
  went silent for the poll timeout) it reports failure after consuming what was there.
  \<open>store p off bs\<close> is the received bytes landing in an array at \<open>p + off\<close>.
\<close>

definition recvAll :: "nat \<Rightarrow> byte list \<Rightarrow> bool \<times> byte list \<times> byte list" where
  "recvAll n sock = (n \<le> length sock, take n sock, drop n sock)"

definition store :: "buffer \<Rightarrow> nat \<Rightarrow> byte list \<Rightarrow> buffer" where
  "store p off bs = (\<lambda>i. if off \<le> i \<and> i < off + length bs then bs ! (i - off) else p i)"

text \<open>The BigRequests drain: \<open>while (skipBytes > 0)\<close> in chunks of at most 4096 bytes.\<close>

function skipLoop :: "nat \<Rightarrow> byte list \<Rightarrow> byte list" where
  "skipLoop skipBytes sock =
     (if skipBytes > 0 then
        (let chunk = min skipBytes 4096
         in case recvAll chunk sock of
              (ok, tmp, sock') \<Rightarrow> if \<not> ok then sock' else skipLoop (skipBytes - chunk) sock')
      else sock)"
  by pat_completeness auto
termination
  by (relation "measure (\<lambda>(skipBytes, sock). skipBytes)") auto

declare skipLoop.simps [simp del]

text \<open>
  One pass of the request loop up to the \<open>switch\<close> (PutImage, opcode 72, branches off
  after the header and reads its own body): the 4-byte header into \<open>buf\<close> (a fresh \<open>uint8_t buf[256]\<close>, so
  its previous content \<open>buf0\<close> is arbitrary), the BigRequests case, and the generic body
  read with its 65536-byte cap.  A body of more than \<open>sizeof(buf) - 4 = 252\<close> bytes goes
  to a scratch vector and \<open>buf\<close> keeps what it held.  Opcodes 2, 4 and 38 read their
  bodies in their handlers.
\<close>

datatype received =
    Disconnected
  | Skipped (skip_rest: "byte list")
  | PutImageHeader (put_length: u16) (put_buf: buffer) (put_rest: "byte list")
  | Request (req_opcode: byte) (req_length: u16) (req_buf: buffer) (req_rest: "byte list")

definition recvRequest :: "bool \<Rightarrow> buffer \<Rightarrow> byte list \<Rightarrow> received" where
  "recvRequest msb buf0 sock =
     (case recvAll 4 sock of
        (ok, hdr, sock1) \<Rightarrow>
          if \<not> ok then Disconnected
          else
            (let buf = store buf0 0 hdr;
                 opcode = buf 0;
                 len = read16 msb buf 2
             in if len = 0 then
                  (case recvAll 4 sock1 of
                     (ok2, extLenBuf, sock2) \<Rightarrow>
                       if \<not> ok2 then Disconnected
                       else
                         (let bigLength = read32 msb (store (\<lambda>i. 0) 0 extLenBuf) 0
                          in if bigLength > 2
                             then Skipped (skipLoop ((unat bigLength - 2) * 4) sock2)
                             else Skipped sock2))
                else if opcode = 72 then PutImageHeader len buf sock1
                else if opcode \<noteq> 2 \<and> opcode \<noteq> 4 \<and> opcode \<noteq> 38 then
                  (let extra0 = (unat len - 1) * 4;
                       extra = (if extra0 > 65536 then 65536 else extra0)
                   in case recvAll extra sock1 of
                        (ok3, body, sock2) \<Rightarrow>
                          if extra > 256 - 4 then Request opcode len buf sock2
                          else Request opcode len (store buf 4 body) sock2)
                else Request opcode len buf sock1))"

section \<open>Atoms (InternAtom, GetAtomName)\<close>

text \<open>
  InternAtom returns the new state and the atom ID of the reply; \<open>internName\<close> is its
  table lookup and insertion, on the name taken from the request.  \<open>name.assign(buf + 8,
  nameLen)\<close> copies \<open>nameLen\<close> bytes starting at \<open>buf[8]\<close>; for \<open>nameLen > 248\<close> that
  reads past the 256-byte array, which here yields whatever the buffer function holds
  there.
\<close>

definition internName :: "Impl \<Rightarrow> byte \<Rightarrow> byte list \<Rightarrow> Impl \<times> u32" where
  "internName s onlyIfExists name =
     (case atomNameToId s name of
        Some atomId \<Rightarrow> (s, atomId)
      | None \<Rightarrow>
          if onlyIfExists = 0 \<and> name \<noteq> [] then
            (let atomId = nextAtomId s
             in (s\<lparr>nextAtomId := nextAtomId s + 1,
                   atomNameToId := (atomNameToId s)(name \<mapsto> atomId),
                   atomIdToName := (atomIdToName s)(atomId \<mapsto> name)\<rparr>, atomId))
          else (s, 0))"

definition handleInternAtom :: "Impl \<Rightarrow> buffer \<Rightarrow> Impl \<times> u32" where
  "handleInternAtom s buf =
     (let onlyIfExists = buf 1;
          nameLen = read16 (msbFirst s) buf 4;
          name = (if nameLen > 0 \<and> nameLen \<le> 256
                  then map buf [8 ..< 8 + unat nameLen] else [])
      in internName s onlyIfExists name)"

text \<open>GetAtomName: the reply's name-length field and the name bytes after the 32-byte
  header.\<close>

definition handleGetAtomName :: "Impl \<Rightarrow> buffer \<Rightarrow> u16 \<times> byte list" where
  "handleGetAtomName s buf =
     (let atomId = read32 (msbFirst s) buf 4;
          name = (case atomIdToName s atomId of Some n \<Rightarrow> n | None \<Rightarrow> []);
          nameLen = (word_of_nat (length name) :: u16)
      in (nameLen, take (unat nameLen) name))"

text \<open>The two atom requests read off the socket and handled: the atom cases of the
  \<open>switch\<close>.  Other opcodes are not this function's business (\<open>None\<close>).\<close>

datatype atom_reply = AtomId u32 | AtomName u16 "byte list"

definition serveAtomRequest ::
    "Impl \<Rightarrow> buffer \<Rightarrow> byte list \<Rightarrow> (Impl \<times> atom_reply \<times> byte list) option" where
  "serveAtomRequest s buf0 sock =
     (case recvRequest (msbFirst s) buf0 sock of
        Request opcode len buf rest \<Rightarrow>
          if opcode = 16 then
            (case handleInternAtom s buf of (s', atomId) \<Rightarrow> Some (s', AtomId atomId, rest))
          else if opcode = 17 then
            (case handleGetAtomName s buf of (n, name) \<Rightarrow> Some (s, AtomName n name, rest))
          else None
      | _ \<Rightarrow> None)"

text \<open>The requests as a client encodes them: the name padded to a multiple of four.\<close>

definition pad4 :: "nat \<Rightarrow> nat" where
  "pad4 n = (4 - n mod 4) mod 4"

definition reqInternAtom :: "bool \<Rightarrow> byte \<Rightarrow> byte list \<Rightarrow> byte list" where
  "reqInternAtom msb onlyIfExists name =
     [16, onlyIfExists] @ enc16 msb (word_of_nat (2 + (length name + pad4 (length name)) div 4))
     @ enc16 msb (word_of_nat (length name)) @ [0, 0]
     @ name @ replicate (pad4 (length name)) 0"

definition reqGetAtomName :: "bool \<Rightarrow> u32 \<Rightarrow> byte list" where
  "reqGetAtomName msb atomId = [17, 0] @ enc16 msb 2 @ enc32 msb atomId"

text \<open>A request of 65544 bytes: ChangeProperty (opcode 18) with length field 16386, well
  inside the maximum request length of 32767 units that the connection setup
  advertises.\<close>

definition bigChangeProperty :: "byte list" where
  "bigChangeProperty = [18, 0] @ enc16 False 16386 @ replicate 65540 0xAA"

text \<open>
  The atom tables as the specification describes them: the two maps are inverse to each
  other and the IDs in use are exactly \<open>1, ..., nextAtomId - 1\<close>.
\<close>

definition atomsOk :: "Impl \<Rightarrow> bool" where
  "atomsOk s =
     ((\<forall>nm a. (atomNameToId s nm = Some a) = (atomIdToName s a = Some nm)) \<and>
      dom (atomIdToName s) = {a. 0 < unat a \<and> unat a < unat (nextAtomId s)} \<and>
      0 < unat (nextAtomId s))"

text \<open>The atom name \<open>FOO\<close>.\<close>

definition nameFOO :: "byte list" where
  "nameFOO = [0x46, 0x4F, 0x4F]"

section \<open>Codec lemmas\<close>

lemma ucast_and_255_16: "(ucast ((w::16 word) AND 0xff) :: 8 word) = ucast w"
proof -
  have "(0xff::16 word) = mask 8" by (simp add: mask_eq_exp_minus_1)
  then show ?thesis by (simp add: bit_eq_iff bit_simps)
qed

lemma ucast_and_255_32: "(ucast ((w::32 word) AND 0xff) :: 8 word) = ucast w"
proof -
  have "(0xff::32 word) = mask 8" by (simp add: mask_eq_exp_minus_1)
  then show ?thesis by (simp add: bit_eq_iff bit_simps)
qed

lemma memset0_4: "memset0 p off 4 = p(off := 0, off + 1 := 0, off + 2 := 0, off + 3 := 0)"
  by (auto simp: memset0_def fun_eq_iff)

lemma bytes_of_0: "bytes_of p 0 = []"
  by (simp add: bytes_of_def)

lemma bytes_of_upd_end: "Suc n = m \<Longrightarrow> bytes_of (p(n := v)) m = bytes_of p n @ [v]"
  by (auto simp: bytes_of_def)

section \<open>Connection setup\<close>

lemma sendConnectionReply_msb:
  "msbFirst s \<Longrightarrow> sendConnectionReply s junk = setupReplyLayout True (width s) (height s)"
  apply (simp add: sendConnectionReply_def Let_def write16_def write32_def memset0_4
      ucast_and_255_16 ucast_and_255_32 kX11ConnectionAccepted_def kX11Major_def kX11Minor_def
      kRootWindowId_def kDefaultColormapId_def kWhitePixel_def kBlackPixel_def
      kDefaultVisualId_def)
  apply (simp add: bytes_of_upd_end bytes_of_0 enc16_def enc32_def setupReplyLayout_def)
  done

lemma sendConnectionReply_lsb:
  "\<not> msbFirst s \<Longrightarrow> sendConnectionReply s junk = setupReplyLayout False (width s) (height s)"
  apply (simp add: sendConnectionReply_def Let_def write16_def write32_def memset0_4
      ucast_and_255_16 ucast_and_255_32 kX11ConnectionAccepted_def kX11Major_def kX11Minor_def
      kRootWindowId_def kDefaultColormapId_def kWhitePixel_def kBlackPixel_def
      kDefaultVisualId_def)
  apply (simp add: bytes_of_upd_end bytes_of_0 enc16_def enc32_def setupReplyLayout_def)
  done

lemma length_setupReplyLayout: "length (setupReplyLayout msb w h) = 120"
  by (simp add: setupReplyLayout_def enc16_def enc32_def Let_def)

text \<open>
  C5.  For every connection request \<open>req\<close>, every surface size and whatever the reply
  array held before, the bytes the server sends after accepting the client are exactly
  120, and they are the connection-setup block with each 16- and 32-bit field laid out
  in the order the first request byte declares: most significant byte first for \<open>0x42\<close>,
  least significant byte first for any other value.
\<close>

theorem connection_reply_120_bytes_in_declared_order:
  "length (sendConnectionReply (acceptClient s req) junk) = 120 \<and>
   sendConnectionReply (acceptClient s req) junk
     = setupReplyLayout (req 0 = 0x42) (width s) (height s)"
proof (cases "req 0 = 0x42")
  case True
  then have "msbFirst (acceptClient s req)" by (simp add: acceptClient_def)
  from sendConnectionReply_msb [OF this, of junk] True show ?thesis
    by (simp add: length_setupReplyLayout acceptClient_def)
next
  case False
  then have "\<not> msbFirst (acceptClient s req)" by (simp add: acceptClient_def)
  from sendConnectionReply_lsb [OF this, of junk] False show ?thesis
    by (simp add: length_setupReplyLayout acceptClient_def)
qed

section \<open>Ancestor offsets\<close>

lemma loop_bound: "snd (snd (getAbsolutePos_loop s depth cur ax ay)) \<le> max 32 depth"
proof (induction s depth cur ax ay rule: getAbsolutePos_loop.induct)
  case (1 s depth cur ax ay)
  show ?case
    apply (subst getAbsolutePos_loop.simps)
    using 1 by (auto simp: Let_def split: option.splits)
qed

lemma loop_stop_missing:
  "depth < 32 \<Longrightarrow> map_of (windowPositions s) cur = None \<Longrightarrow>
   getAbsolutePos_loop s depth cur ax ay = (ax, ay, Suc depth)"
  by (subst getAbsolutePos_loop.simps) simp

lemma loop_stop_parent:
  "depth < 32 \<Longrightarrow> map_of (windowPositions s) cur = Some p \<Longrightarrow>
   (childWindows s \<noteq> [] \<and> pos_parent p = hd (childWindows s))
     \<or> pos_parent p = kRootWindowId \<or> pos_parent p = 0 \<Longrightarrow>
   getAbsolutePos_loop s depth cur ax ay = (i32 (ax + pos_x p), i32 (ay + pos_y p), Suc depth)"
  by (subst getAbsolutePos_loop.simps) (auto simp: Let_def)

lemma cyc_fields:
  "map_of (windowPositions cyclicTable) 5 = Some \<lparr>pos_x = 1, pos_y = 2, pos_parent = 6\<rparr>"
  "map_of (windowPositions cyclicTable) 6 = Some \<lparr>pos_x = 10, pos_y = 20, pos_parent = 5\<rparr>"
  "childWindows cyclicTable = [3, 5, 6]"
  by (simp_all add: cyclicTable_def newDisplay_def)

lemma cyc_step:
  "depth < 32 \<Longrightarrow> getAbsolutePos_loop cyclicTable depth 5 ax ay
     = getAbsolutePos_loop cyclicTable (Suc depth) 6 (i32 (ax + 1)) (i32 (ay + 2))"
  "depth < 32 \<Longrightarrow> getAbsolutePos_loop cyclicTable depth 6 ax ay
     = getAbsolutePos_loop cyclicTable (Suc depth) 5 (i32 (ax + 10)) (i32 (ay + 20))"
  "\<not> depth < 32 \<Longrightarrow> getAbsolutePos_loop cyclicTable depth cur ax ay = (ax, ay, depth)"
  by (subst getAbsolutePos_loop.simps, simp add: cyc_fields kRootWindowId_def Let_def)+

lemma cyc_walk: "getAbsolutePos_loop cyclicTable 0 5 0 0 = (176, 352, 32)"
  by (simp add: cyc_step i32_def)

text \<open>
  C10.  \<open>getAbsolutePos\<close> is a total function (its loop is defined with a termination
  proof), and on every window table, cyclic ones included, the parent-chain walk enters
  its body at most 32 times.  At any step of the walk it stops at once when the current
  window has no position entry, and after adding the current window's offset (a 32-bit
  addition) when that window's parent is the top-level plugin window, the root window
  or 0.
\<close>

theorem getAbsolutePos_walk_bounded:
  "getAbsolutePos_iterations s wid \<le> 32 \<and>
   (\<forall>depth cur ax ay. depth < 32 \<and> map_of (windowPositions s) cur = None \<longrightarrow>
      getAbsolutePos_loop s depth cur ax ay = (ax, ay, Suc depth)) \<and>
   (\<forall>depth cur ax ay p. depth < 32 \<and> map_of (windowPositions s) cur = Some p \<and>
      ((childWindows s \<noteq> [] \<and> pos_parent p = hd (childWindows s))
        \<or> pos_parent p = kRootWindowId \<or> pos_parent p = 0) \<longrightarrow>
      getAbsolutePos_loop s depth cur ax ay
        = (i32 (ax + pos_x p), i32 (ay + pos_y p), Suc depth))"
proof -
  have "getAbsolutePos_iterations s wid \<le> 32"
    using loop_bound [of s 0 wid 0 0]
    by (auto simp: getAbsolutePos_iterations_def split: prod.splits)
  then show ?thesis
    using loop_stop_missing loop_stop_parent by blast
qed

theorem getAbsolutePos_walk_bounded_witness:
  "getAbsolutePos_iterations cyclicTable 5 \<le> 32 \<and>
   getAbsolutePos_iterations cyclicTable 5 = 32 \<and>
   getAbsolutePos cyclicTable 5 = (176, 352) \<and>
   map_of (windowPositions cyclicTable) 9 = None \<and>
   getAbsolutePos_loop cyclicTable 0 9 0 0 = (0, 0, 1)"
proof -
  have a: "map_of (windowPositions cyclicTable) 9 = None"
    by (simp add: cyclicTable_def newDisplay_def)
  have b: "getAbsolutePos_iterations cyclicTable 5 = 32"
    by (simp add: getAbsolutePos_iterations_def cyc_walk)
  have c: "getAbsolutePos cyclicTable 5 = (176, 352)"
    by (simp add: getAbsolutePos_def cyc_walk)
  from getAbsolutePos_walk_bounded [of cyclicTable 5] a b c show ?thesis by simp
qed

section \<open>Teardown requests\<close>

lemma closing_already: "closingGracefully s \<Longrightarrow> s\<lparr>closingGracefully := True\<rparr> = s"
  by simp

lemma signalDetach_creating:
  "isCreatingPluginUIForDisplay displayStates (displayNumber s) \<Longrightarrow>
   signalDetach displayStates s = (True, s\<lparr>detachDeferred := True\<rparr>)"
  by (simp add: signalDetach_def)

lemma signalDetach_not_creating:
  "\<not> isCreatingPluginUIForDisplay displayStates (displayNumber s) \<Longrightarrow>
   signalDetach displayStates s = (False, s\<lparr>closingGracefully := True\<rparr>)"
  by (simp add: signalDetach_def)

text \<open>
  C9, as amended.  While plugin UI creation is in progress for the display (phase
  \<open>Creating\<close>), \<open>signalDetach\<close> reports "deferred" and changes nothing but the deferred
  flag: the graceful-closing state, both sockets and all thread flags are as before, and
  \<open>detachSurface\<close> returns right after it without stopping or joining a thread or closing
  a socket.  Teardown is carried out only by a detach request made when the display is
  not in \<open>Creating\<close>: \<open>signalDetach\<close> then reports "not deferred" and leaves the
  graceful-closing state set, and \<open>detachSurface\<close> on an attached display stops the plugin
  UI thread and joins the server and render threads; it clears the framebuffer and closes
  both sockets if the joins return, which they do not while the joined thread's loop has
  not ended.  A request that was deferred is carried out by such a later request.
\<close>

theorem signalDetach_deferred_while_creating:
  "(isCreatingPluginUIForDisplay displayStates (displayNumber s) \<longrightarrow>
      signalDetach displayStates s = (True, s\<lparr>detachDeferred := True\<rparr>) \<and>
      closingGracefully (snd (signalDetach displayStates s)) = closingGracefully s \<and>
      clientFd (snd (signalDetach displayStates s)) = clientFd s \<and>
      serverFd (snd (signalDetach displayStates s)) = serverFd s \<and>
      running (snd (signalDetach displayStates s)) = running s \<and>
      renderThreadRunning (snd (signalDetach displayStates s)) = renderThreadRunning s \<and>
      pluginUIRunning (snd (signalDetach displayStates s)) = pluginUIRunning s \<and>
      serverThreadJoinable (snd (signalDetach displayStates s)) = serverThreadJoinable s \<and>
      detachSurface displayStates s
        = Returned (if clientFd s < 0 \<and> \<not> serverThreadJoinable s then s
                    else s\<lparr>detachDeferred := True\<rparr>)) \<and>
   (\<not> isCreatingPluginUIForDisplay displayStates (displayNumber s) \<longrightarrow>
      signalDetach displayStates s = (False, s\<lparr>closingGracefully := True\<rparr>) \<and>
      detachSurface displayStates s =
        (if clientFd s < 0 \<and> \<not> serverThreadJoinable s then Returned s
         else if serverThreadJoinable s \<and> \<not> serverLoopReturned s then
           BlockedInJoin (s\<lparr>closingGracefully := True, pluginUIRunning := False\<rparr>)
         else if renderThreadJoinable s \<and> renderThreadRunning s \<and> \<not> renderThreadExited s then
           BlockedInJoin (s\<lparr>closingGracefully := True, pluginUIRunning := False,
                            serverThreadJoinable := False\<rparr>)
         else
           Returned (s\<lparr>closingGracefully := True, pluginUIRunning := False,
                       serverThreadJoinable := False, renderThreadJoinable := False,
                       framebuffer := [], clientFd := - 1, serverFd := - 1\<rparr>))) \<and>
   (isCreatingPluginUIForDisplay displayStates (displayNumber s) \<and>
    \<not> isCreatingPluginUIForDisplay displayStates' (displayNumber s) \<longrightarrow>
      signalDetach displayStates' (snd (signalDetach displayStates s))
        = (False, s\<lparr>detachDeferred := True, closingGracefully := True\<rparr>))"
proof (intro conjI impI)
  assume c: "isCreatingPluginUIForDisplay displayStates (displayNumber s)"
  show "signalDetach displayStates s = (True, s\<lparr>detachDeferred := True\<rparr>)"
    by (rule signalDetach_creating [OF c])
  show "closingGracefully (snd (signalDetach displayStates s)) = closingGracefully s"
       "clientFd (snd (signalDetach displayStates s)) = clientFd s"
       "serverFd (snd (signalDetach displayStates s)) = serverFd s"
       "running (snd (signalDetach displayStates s)) = running s"
       "renderThreadRunning (snd (signalDetach displayStates s)) = renderThreadRunning s"
       "pluginUIRunning (snd (signalDetach displayStates s)) = pluginUIRunning s"
       "serverThreadJoinable (snd (signalDetach displayStates s)) = serverThreadJoinable s"
    by (simp_all add: signalDetach_creating [OF c])
  show "detachSurface displayStates s
        = Returned (if clientFd s < 0 \<and> \<not> serverThreadJoinable s then s
                    else s\<lparr>detachDeferred := True\<rparr>)"
    by (simp add: detachSurface_def signalDetach_creating [OF c])
next
  assume n: "\<not> isCreatingPluginUIForDisplay displayStates (displayNumber s)"
  show "signalDetach displayStates s = (False, s\<lparr>closingGracefully := True\<rparr>)"
    by (rule signalDetach_not_creating [OF n])
  show "detachSurface displayStates s =
        (if clientFd s < 0 \<and> \<not> serverThreadJoinable s then Returned s
         else if serverThreadJoinable s \<and> \<not> serverLoopReturned s then
           BlockedInJoin (s\<lparr>closingGracefully := True, pluginUIRunning := False\<rparr>)
         else if renderThreadJoinable s \<and> renderThreadRunning s \<and> \<not> renderThreadExited s then
           BlockedInJoin (s\<lparr>closingGracefully := True, pluginUIRunning := False,
                            serverThreadJoinable := False\<rparr>)
         else
           Returned (s\<lparr>closingGracefully := True, pluginUIRunning := False,
                       serverThreadJoinable := False, renderThreadJoinable := False,
                       framebuffer := [], clientFd := - 1, serverFd := - 1\<rparr>))"
    by (simp add: detachSurface_def signalDetach_not_creating [OF n] Let_def)
next
  assume a: "isCreatingPluginUIForDisplay displayStates (displayNumber s) \<and>
    \<not> isCreatingPluginUIForDisplay displayStates' (displayNumber s)"
  then have "\<not> isCreatingPluginUIForDisplay displayStates'
               (displayNumber (s\<lparr>detachDeferred := True\<rparr>))"
    by simp
  from signalDetach_not_creating [OF this] a
  show "signalDetach displayStates' (snd (signalDetach displayStates s))
        = (False, s\<lparr>detachDeferred := True, closingGracefully := True\<rparr>)"
    by (simp add: signalDetach_creating)
qed

theorem signalDetach_deferred_while_creating_witness:
  "isCreatingPluginUIForDisplay creatingStates (displayNumber attached0) \<and>
   \<not> isCreatingPluginUIForDisplay readyStates (displayNumber attached0) \<and>
   signalDetach creatingStates attached0 = (True, attached0\<lparr>detachDeferred := True\<rparr>) \<and>
   detachSurface creatingStates attached0 = Returned (attached0\<lparr>detachDeferred := True\<rparr>) \<and>
   signalDetach readyStates attached0 = (False, attached0\<lparr>closingGracefully := True\<rparr>) \<and>
   detachSurface readyStates attached0
     = BlockedInJoin (attached0\<lparr>closingGracefully := True, pluginUIRunning := False\<rparr>) \<and>
   detachSurface readyStates (attached0\<lparr>serverLoopReturned := True, renderThreadExited := True\<rparr>)
     = Returned (attached0\<lparr>serverLoopReturned := True, renderThreadExited := True,
                   closingGracefully := True, pluginUIRunning := False,
                   serverThreadJoinable := False, renderThreadJoinable := False,
                   framebuffer := [], clientFd := - 1, serverFd := - 1\<rparr>) \<and>
   signalDetach readyStates (snd (signalDetach creatingStates attached0))
     = (False, attached0\<lparr>detachDeferred := True, closingGracefully := True\<rparr>)"
proof -
  have c: "isCreatingPluginUIForDisplay creatingStates (displayNumber attached0)"
    by (simp add: isCreatingPluginUIForDisplay_def creatingStates_def attached0_def
          attachSurface_def newDisplay_def Let_def)
  have n: "\<not> isCreatingPluginUIForDisplay readyStates (displayNumber attached0)"
    by (simp add: isCreatingPluginUIForDisplay_def readyStates_def attached0_def
          attachSurface_def newDisplay_def Let_def)
  have n': "\<not> isCreatingPluginUIForDisplay readyStates
              (displayNumber (attached0\<lparr>serverLoopReturned := True, renderThreadExited := True\<rparr>))"
    using n by simp
  have f: "clientFd attached0 = - 1" "serverThreadJoinable attached0"
    "\<not> serverLoopReturned attached0" "renderThreadJoinable attached0"
    by (simp_all add: attached0_def attachSurface_def newDisplay_def Let_def)
  note T = signalDetach_deferred_while_creating
  from T [of creatingStates attached0 readyStates] c n
  have 1: "signalDetach creatingStates attached0 = (True, attached0\<lparr>detachDeferred := True\<rparr>)"
    and 2: "detachSurface creatingStates attached0
              = Returned (if clientFd attached0 < 0 \<and> \<not> serverThreadJoinable attached0
                          then attached0 else attached0\<lparr>detachDeferred := True\<rparr>)"
    and 3: "signalDetach readyStates (snd (signalDetach creatingStates attached0))
              = (False, attached0\<lparr>detachDeferred := True, closingGracefully := True\<rparr>)"
    by blast+
  from T [of readyStates attached0 readyStates] n
  have 4: "signalDetach readyStates attached0 = (False, attached0\<lparr>closingGracefully := True\<rparr>)"
    and 5: "detachSurface readyStates attached0 =
        (if clientFd attached0 < 0 \<and> \<not> serverThreadJoinable attached0 then Returned attached0
         else if serverThreadJoinable attached0 \<and> \<not> serverLoopReturned attached0 then
           BlockedInJoin (attached0\<lparr>closingGracefully := True, pluginUIRunning := False\<rparr>)
         else if renderThreadJoinable attached0 \<and> renderThreadRunning attached0 \<and>
                 \<not> renderThreadExited attached0 then
           BlockedInJoin (attached0\<lparr>closingGracefully := True, pluginUIRunning := False,
                            serverThreadJoinable := False\<rparr>)
         else
           Returned (attached0\<lparr>closingGracefully := True, pluginUIRunning := False,
                       serverThreadJoinable := False, renderThreadJoinable := False,
                       framebuffer := [], clientFd := - 1, serverFd := - 1\<rparr>))"
    by blast+
  from T [of readyStates "attached0\<lparr>serverLoopReturned := True, renderThreadExited := True\<rparr>"
            readyStates] n'
  have 6: "detachSurface readyStates (attached0\<lparr>serverLoopReturned := True, renderThreadExited := True\<rparr>)
     = Returned (attached0\<lparr>serverLoopReturned := True, renderThreadExited := True,
                   closingGracefully := True, pluginUIRunning := False,
                   serverThreadJoinable := False, renderThreadJoinable := False,
                   framebuffer := [], clientFd := - 1, serverFd := - 1\<rparr>)"
    using f by simp
  from c n 1 2 3 4 5 6 f show ?thesis by simp
qed

text \<open>
  C9 as stated fails in its last clause: a detach that was deferred is not carried out
  when the instantiation completes.  Display 0 is attached and enters \<open>Creating\<close>;
  \<open>detachSurface\<close> is deferred; \<open>createPluginUI\<close> returns successfully, the table leaves
  \<open>Creating\<close> for \<open>Ready\<close> and, no detach being pending on the table, nothing is destroyed.
  The display is left as the deferred call left it: not closing, all three threads
  running, the framebuffer in place.
\<close>

theorem deferred_detach_is_not_replayed_after_creation:
  "nativeBeginCreatePluginUI Map.empty 0 2 = creatingStates \<and>
   detachSurface creatingStates attached0 = Returned (attached0\<lparr>detachDeferred := True\<rparr>) \<and>
   nativeCreatePluginUI_returned creatingStates 0 True = (readyStates, False) \<and>
   \<not> isCreatingPluginUIForDisplay readyStates 0 \<and>
   \<not> closingGracefully (attached0\<lparr>detachDeferred := True\<rparr>) \<and>
   running (attached0\<lparr>detachDeferred := True\<rparr>) \<and>
   pluginUIRunning (attached0\<lparr>detachDeferred := True\<rparr>) \<and>
   renderThreadRunning (attached0\<lparr>detachDeferred := True\<rparr>) \<and>
   serverThreadJoinable (attached0\<lparr>detachDeferred := True\<rparr>) \<and>
   length (framebuffer (attached0\<lparr>detachDeferred := True\<rparr>)) = 480000"
  by (simp add: nativeBeginCreatePluginUI_def nativeCreatePluginUI_returned_def
        creatingStates_def readyStates_def detachSurface_def signalDetach_def
        isCreatingPluginUIForDisplay_def attached0_def attachSurface_def newDisplay_def
        Let_def fun_eq_iff)

section \<open>Evaluating concrete runs\<close>

lemmas req_defs = reqCreateWindow_def reqMapWindow_def reqUnmapWindow_def reqDestroyWindow_def
  reqGetGeometry_def reqConfigureWindow_def enc16_def enc32_def mkbuf_def read16_def read32_def

lemmas scene_defs = run_def lsbClient_def acceptClient_def attachSurface_def newDisplay_def
  handleCreateWindow_def handleMapWindow_def handleUnmapWindow_def handleDestroyWindow_def
  Let_def req_defs bgX11_def kRootWindowId_def

lemma twoChildren_fields:
  "childWindows twoChildren = [0x200001, 0x200002, 0x200003]"
  "unmappedWindows twoChildren = {}"
  "windowSizes twoChildren = [0x200001 \<mapsto> (8, 8), 0x200002 \<mapsto> (4, 4), 0x200003 \<mapsto> (2, 2)]"
  "windowPositions twoChildren =
     [(0x200001, \<lparr>pos_x = 0, pos_y = 0, pos_parent = 1\<rparr>),
      (0x200002, \<lparr>pos_x = 2, pos_y = 1, pos_parent = 0x200001\<rparr>),
      (0x200003, \<lparr>pos_x = 3, pos_y = 2, pos_parent = 0x200001\<rparr>)]"
  by (auto simp add: twoChildren_def scene_defs)



section \<open>Hit testing\<close>








lemma parentRaised_fields:
  "childWindows parentRaised = [0x200001, 0x200003, 0x200005]"
  "unmappedWindows parentRaised = {}"
  "windowSizes parentRaised
     = [0x200001 \<mapsto> (64, 64), 0x200005 \<mapsto> (32, 32), 0x200003 \<mapsto> (16, 16)]"
  "windowPositions parentRaised =
     [(0x200001, \<lparr>pos_x = 0, pos_y = 0, pos_parent = 1\<rparr>),
      (0x200005, \<lparr>pos_x = 8, pos_y = 8, pos_parent = 1\<rparr>),
      (0x200003, \<lparr>pos_x = 4, pos_y = 4, pos_parent = 0x200005\<rparr>)]"
  by (auto simp add: parentRaised_def scene_defs bfs_subtree.simps)

lemma parentRaised_abs:
  "getAbsolutePos parentRaised 0x200005 = (8, 8)"
  "getAbsolutePos parentRaised 0x200003 = (12, 12)"
  by (simp_all add: getAbsolutePos_def getAbsolutePos_loop.simps parentRaised_fields i32_def
        kRootWindowId_def)

text \<open>
  The parent can win over its mapped child.  MapWindow re-appends the subtree of a window
  under the root in the order of the window IDs, so a child whose ID is smaller than its
  parent's comes to stand before the parent in the list, and the hit test, walking the
  list from its end, stops at the parent: the point (16, 16) lies inside the mapped child
  \<open>0x200003\<close> and is resolved to its parent \<open>0x200005\<close>.
\<close>

lemma hitTest_returns_parent_listed_after_child:
  "hitCandidate parentRaised 16 16 0x200003 \<and>
   map_of (windowPositions parentRaised) 0x200003
     = Some \<lparr>pos_x = 4, pos_y = 4, pos_parent = 0x200005\<rparr> \<and>
   childWindows parentRaised = [0x200001, 0x200003, 0x200005] \<and>
   hitTestChildWindow parentRaised 16 16 = \<lparr>hit_wid = 0x200005, localX = 8, localY = 8\<rparr>"
  by (simp add: hitCandidate_def hitTestChildWindow_def parentRaised_fields parentRaised_abs
        i32_def Let_def)





section \<open>Window tables under request sequences\<close>

lemma bfs_subtree_keys: "set (bfs_subtree ps subtree) \<subseteq> set subtree \<union> fst ` set ps"
proof (induction ps subtree rule: bfs_subtree.induct)
  case (1 positions subtree)
  obtain st' c where p: "bfs_pass positions subtree False = (st', c)" by force
  have k: "set st' \<subseteq> set subtree \<union> fst ` set positions"
    using bfs_pass_keys [of positions subtree False] p by simp
  show ?case
  proof (cases c)
    case True
    have "set (bfs_subtree positions st') \<subseteq> set st' \<union> fst ` set positions"
      using 1 [OF p [symmetric]] True by simp
    with p k True show ?thesis
      by (subst bfs_subtree.simps) auto
  next
    case False
    with p k show ?thesis by (subst bfs_subtree.simps) auto
  qed
qed

lemmas alist_map = update_conv' delete_conv'

lemma aligned_create: "tablesAligned s \<Longrightarrow> tablesAligned (fst (handleCreateWindow s buf))"
  by (auto simp: tablesAligned_def handleCreateWindow_def Let_def alist_map)

lemma aligned_destroy: "tablesAligned s \<Longrightarrow> tablesAligned (fst (handleDestroyWindow s buf))"
  by (auto simp: tablesAligned_def handleDestroyWindow_def Let_def alist_map)

lemma aligned_unmap: "tablesAligned s \<Longrightarrow> tablesAligned (fst (handleUnmapWindow s buf))"
  by (auto simp: tablesAligned_def handleUnmapWindow_def Let_def)

lemma aligned_map: 
  assumes "tablesAligned s" shows "tablesAligned (fst (handleMapWindow s buf))"
proof -
  let ?wid = "read32 (msbFirst s) buf 4"
  have "set (bfs_subtree (windowPositions s) [?wid]) \<subseteq> set (childWindows s)"
    if "map_of (windowPositions s) ?wid = Some p" for p
  proof -
    have "?wid \<in> dom (map_of (windowPositions s))" using that by auto
    then show ?thesis using bfs_subtree_keys [of "windowPositions s" "[?wid]"] assms
      by (auto simp: tablesAligned_def dom_map_of_conv_image_fst)
  qed
  then show ?thesis using assms
    by (auto simp: tablesAligned_def handleMapWindow_def Let_def split: option.splits)
qed

lemma cfgSetX_keys:
  "dom (map_of (windowPositions (fst (cfgSetX s w v)))) = dom (map_of (windowPositions s))"
  "windowSizes (fst (cfgSetX s w v)) = windowSizes s"
  "childWindows (fst (cfgSetX s w v)) = childWindows s"
  by (auto simp: cfgSetX_def alist_map split: option.splits)

lemma cfgSetY_keys:
  "dom (map_of (windowPositions (fst (cfgSetY s w v)))) = dom (map_of (windowPositions s))"
  "windowSizes (fst (cfgSetY s w v)) = windowSizes s"
  "childWindows (fst (cfgSetY s w v)) = childWindows s"
  by (auto simp: cfgSetY_def alist_map split: option.splits)


lemma cfgResize_sizes_other:
  "v \<noteq> w \<Longrightarrow> windowSizes (fst (cfgResize s w a b)) v = windowSizes s v"
  by (auto simp add: cfgResize_def Let_def)
lemma cfgResize_sizes_same:
  "w \<in> set (childWindows s) \<Longrightarrow> (a > 0 \<or> b > 0) \<Longrightarrow> windowSizes (fst (cfgResize s w a b)) w \<noteq> None"
  by (simp add: cfgResize_def Let_def)
lemma cfgResize_skip:
  "\<not> (w \<in> set (childWindows s) \<and> (a > 0 \<or> b > 0)) \<Longrightarrow> cfgResize s w a b = (s, [])"
  by (auto simp add: cfgResize_def)
lemma cfgResize_frame:
  "windowPositions (fst (cfgResize s w a b)) = windowPositions s"
  "childWindows (fst (cfgResize s w a b)) = childWindows s"
  "originalChildW (fst (cfgResize s w a b)) = originalChildW s"
  "originalChildH (fst (cfgResize s w a b)) = originalChildH s"
  "uiScale (fst (cfgResize s w a b)) = uiScale s"
  "msbFirst (fst (cfgResize s w a b)) = msbFirst s"
  "unmappedWindows (fst (cfgResize s w a b)) = unmappedWindows s"
  by (simp_all add: cfgResize_def Let_def)
lemma aligned_cfgResize: 
  assumes "tablesAligned s" shows "tablesAligned (fst (cfgResize s w a b))"
proof (cases "w \<in> set (childWindows s) \<and> (a > 0 \<or> b > 0)")
  case False
  with assms show ?thesis by (simp add: cfgResize_skip)
next
  case True
  have "dom (windowSizes (fst (cfgResize s w a b))) = dom (windowSizes s)"
  proof (rule set_eqI)
    fix v show "v \<in> dom (windowSizes (fst (cfgResize s w a b))) \<longleftrightarrow> v \<in> dom (windowSizes s)"
    proof (cases "v = w")
      case True
      from \<open>w \<in> set (childWindows s) \<and> (a > 0 \<or> b > 0)\<close> assms have "w \<in> dom (windowSizes s)"
        by (auto simp: tablesAligned_def)
      moreover from \<open>w \<in> set (childWindows s) \<and> (a > 0 \<or> b > 0)\<close> have "w \<in> dom (windowSizes (fst (cfgResize s w a b)))"
        using cfgResize_sizes_same [of w s a b] by (auto simp: domIff)
      ultimately show ?thesis using True by simp
    next
      case False
      then show ?thesis by (simp add: domIff cfgResize_sizes_other)
    qed
  qed
  with assms show ?thesis by (simp add: tablesAligned_def cfgResize_frame)
qed

lemma handleConfigureWindow_state:
  "\<exists>s1 s2 a b. fst (handleConfigureWindow s buf) = fst (cfgResize s2 (read32 (msbFirst s) buf 4) a b) \<and>
     (s1 = s \<or> (\<exists>v. s1 = fst (cfgSetX s (read32 (msbFirst s) buf 4) v))) \<and>
     (s2 = s1 \<or> (\<exists>v. s2 = fst (cfgSetY s1 (read32 (msbFirst s) buf 4) v)))"
proof -
  let ?w = "read32 (msbFirst s) buf 4"
  let ?vm = "read16 (msbFirst s) buf 8"
  define rx where "rx = (if ?vm AND 0x0001 \<noteq> 0
                then cfgSetX s ?w (sint (read32 (msbFirst s) buf 12)) else (s, False))"
  define v1 where "v1 = (if ?vm AND 0x0001 \<noteq> 0 then (12::nat) + 4 else 12)"
  define ry where "ry = (if ?vm AND 0x0002 \<noteq> 0
                then cfgSetY (fst rx) ?w (sint (read32 (msbFirst s) buf v1)) else (fst rx, False))"
  have "\<exists>a b. fst (handleConfigureWindow s buf) = fst (cfgResize (fst ry) ?w a b)"
    unfolding handleConfigureWindow_def Let_def rx_def ry_def v1_def by (intro exI) simp
  moreover have "fst rx = s \<or> (\<exists>v. fst rx = fst (cfgSetX s ?w v))"
    unfolding rx_def by auto
  moreover have "fst ry = fst rx \<or> (\<exists>v. fst ry = fst (cfgSetY (fst rx) ?w v))"
    unfolding ry_def by auto
  ultimately show ?thesis by blast
qed

lemma aligned_cfgSetX: "tablesAligned s \<Longrightarrow> tablesAligned (fst (cfgSetX s w v))"
  by (simp add: tablesAligned_def cfgSetX_keys)

lemma aligned_cfgSetY: "tablesAligned s \<Longrightarrow> tablesAligned (fst (cfgSetY s w v))"
  by (simp add: tablesAligned_def cfgSetY_keys)

lemma aligned_configure:
  assumes "tablesAligned s" shows "tablesAligned (fst (handleConfigureWindow s buf))"
proof -
  from handleConfigureWindow_state [of s buf] obtain s1 s2 a b where
    r: "fst (handleConfigureWindow s buf) = fst (cfgResize s2 (read32 (msbFirst s) buf 4) a b)"
    and s1: "s1 = s \<or> (\<exists>v. s1 = fst (cfgSetX s (read32 (msbFirst s) buf 4) v))"
    and s2: "s2 = s1 \<or> (\<exists>v. s2 = fst (cfgSetY s1 (read32 (msbFirst s) buf 4) v))"
    by blast
  from s1 assms have "tablesAligned s1" by (auto simp: aligned_cfgSetX)
  with s2 have "tablesAligned s2" by (auto simp: aligned_cfgSetY)
  then show ?thesis by (simp add: r aligned_cfgResize)
qed

lemma aligned_step: "tablesAligned s \<Longrightarrow> tablesAligned (step s r)"
  by (cases r) (simp_all add: aligned_create aligned_map aligned_unmap aligned_destroy aligned_configure)

lemma aligned_run: "tablesAligned s \<Longrightarrow> tablesAligned (run s reqs)"
  unfolding run_def by (induction reqs arbitrary: s) (simp_all add: aligned_step)

lemma aligned_accept: "tablesAligned (acceptClient s req)"
  by (simp add: tablesAligned_def acceptClient_def)

lemma orphaned_fields:
  "childWindows orphaned = [0x200002]"
  "windowSizes orphaned = [0x200002 \<mapsto> (4, 4)]"
  "windowPositions orphaned = [(0x200002, \<lparr>pos_x = 2, pos_y = 1, pos_parent = 0x200001\<rparr>)]"
  "msbFirst orphaned = False"
  by (auto simp add: orphaned_def scene_defs)

text \<open>
  C6, as amended.  After any sequence of CreateWindow, MapWindow, UnmapWindow,
  DestroyWindow (and ConfigureWindow) requests on a connection, the hit-test list, the
  size table and the position table hold the same window IDs.  DestroyWindow removes
  every entry keyed by the destroyed ID (its event mask, its size, its position, its
  unmapped mark and every occurrence in the hit-test list) and nothing else: every other
  window keeps its event mask, its size, its position entry, recorded parent included,
  and its map state, and the hit-test list is the old one without the destroyed ID, the
  other windows in their old order.  There is no cascade to descendants, so a surviving
  child's recorded parent may name a window that is no longer in the table.
\<close>

theorem destroy_removes_only_the_destroyed_window:
  "tablesAligned (run (acceptClient s0 req) reqs) \<and>
   (\<forall>t t' w. t = run (acceptClient s0 req) reqs \<and> w = read32 (msbFirst t) buf 4 \<and>
        t' = fst (handleDestroyWindow t buf) \<longrightarrow>
      windowEventMasks t' w = None \<and> windowSizes t' w = None \<and>
      map_of (windowPositions t') w = None \<and> w \<notin> unmappedWindows t' \<and>
      w \<notin> set (childWindows t') \<and>
      childWindows t' = removeAll w (childWindows t) \<and>
      (\<forall>v. v \<noteq> w \<longrightarrow>
         windowEventMasks t' v = windowEventMasks t v \<and>
         windowSizes t' v = windowSizes t v \<and>
         map_of (windowPositions t') v = map_of (windowPositions t) v \<and>
         (v \<in> unmappedWindows t' \<longleftrightarrow> v \<in> unmappedWindows t) \<and>
         (v \<in> set (childWindows t') \<longleftrightarrow> v \<in> set (childWindows t))))"
  using aligned_run [OF aligned_accept, of s0 req reqs]
  by (auto simp: handleDestroyWindow_def Let_def alist_map)

theorem destroy_removes_only_the_destroyed_window_witness:
  "tablesAligned orphaned \<and>
   dom (windowSizes orphaned) = {0x200002} \<and>
   childWindows orphaned = [0x200002] \<and>
   map_of (windowPositions orphaned) 0x200001 = None \<and>
   childWindows (fst (handleDestroyWindow twoChildren (mkbuf (reqDestroyWindow False 0x200002))))
     = [0x200001, 0x200003] \<and>
   windowSizes (fst (handleDestroyWindow twoChildren (mkbuf (reqDestroyWindow False 0x200002))))
     0x200003 = Some (2, 2)"
proof -
  note T = destroy_removes_only_the_destroyed_window
  have "tablesAligned orphaned"
    using T [of "attachSurface (newDisplay 0) 800 600" "mkbuf [0x6c]"
          "[CreateWindow (mkbuf (reqCreateWindow False 0x200001 1 0 0 8 8)),
            CreateWindow (mkbuf (reqCreateWindow False 0x200002 0x200001 2 1 4 4)),
            MapWindow (mkbuf (reqMapWindow False 0x200001)),
            MapWindow (mkbuf (reqMapWindow False 0x200002)),
            DestroyWindow (mkbuf (reqDestroyWindow False 0x200001))]" "mkbuf []"]
    by (simp add: orphaned_def lsbClient_def)
  moreover
  have w: "read32 (msbFirst twoChildren) (mkbuf (reqDestroyWindow False 0x200002)) 4 = 0x200002"
    by (simp add: twoChildren_def scene_defs)
  from T [of "attachSurface (newDisplay 0) 800 600" "mkbuf [0x6c]"
          "[CreateWindow (mkbuf (reqCreateWindow False 0x200001 1 0 0 8 8)),
            CreateWindow (mkbuf (reqCreateWindow False 0x200002 0x200001 2 1 4 4)),
            CreateWindow (mkbuf (reqCreateWindow False 0x200003 0x200001 3 2 2 2)),
            MapWindow (mkbuf (reqMapWindow False 0x200001)),
            MapWindow (mkbuf (reqMapWindow False 0x200002)),
            MapWindow (mkbuf (reqMapWindow False 0x200003))]"
          "mkbuf (reqDestroyWindow False 0x200002)"]
  have d: "childWindows (fst (handleDestroyWindow twoChildren (mkbuf (reqDestroyWindow False 0x200002))))
             = removeAll 0x200002 (childWindows twoChildren) \<and>
           windowSizes (fst (handleDestroyWindow twoChildren (mkbuf (reqDestroyWindow False 0x200002))))
             0x200003 = windowSizes twoChildren 0x200003"
    using w unfolding twoChildren_def [symmetric] lsbClient_def [symmetric] by simp
  ultimately show ?thesis
    using d by (simp add: orphaned_fields twoChildren_fields)
qed

text \<open>
  C6 as stated fails: once a parent is destroyed its child is still in every table, and
  the child's recorded parent is the destroyed ID, which no table holds any more.
\<close>

theorem destroy_leaves_child_with_dangling_parent:
  "map_of (windowPositions orphaned) 0x200002
     = Some \<lparr>pos_x = 2, pos_y = 1, pos_parent = 0x200001\<rparr> \<and>
   0x200002 \<in> set (childWindows orphaned) \<and>
   0x200001 \<notin> set (childWindows orphaned) \<and>
   map_of (windowPositions orphaned) 0x200001 = None \<and>
   windowSizes orphaned 0x200001 = None"
  by (simp add: orphaned_fields)

section \<open>ConfigureWindow\<close>

lemma cfgOff_simps:
  "cfgOff s buf 0 = 12"
  "cfgOff s buf 1 = (if cfgHas s buf 0 then 16 else 12)"
  "cfgOff s buf 2 = (if cfgHas s buf 1 then (if cfgHas s buf 0 then 16 else 12) + 4
                     else (if cfgHas s buf 0 then 16 else 12))"
  "cfgOff s buf 3 = (if cfgHas s buf 2 then
                       (if cfgHas s buf 1 then (if cfgHas s buf 0 then 16 else 12) + 4
                        else (if cfgHas s buf 0 then 16 else 12)) + 4
                     else (if cfgHas s buf 1 then (if cfgHas s buf 0 then 16 else 12) + 4
                           else (if cfgHas s buf 0 then 16 else 12)))"
proof -
  have u: "[0..<1] = [0::nat]" "[0..<2] = [0::nat, 1]" "[0..<3] = [0::nat, 1, 2]"
    by (simp_all add: upt_rec)
  show "cfgOff s buf 0 = 12" by (simp add: cfgOff_def)
  show "cfgOff s buf 1 = (if cfgHas s buf 0 then 16 else 12)"
    by (simp add: cfgOff_def u)
  show "cfgOff s buf 2 = (if cfgHas s buf 1 then (if cfgHas s buf 0 then 16 else 12) + 4
                     else (if cfgHas s buf 0 then 16 else 12))"
    by (simp add: cfgOff_def u)
  show "cfgOff s buf 3 = (if cfgHas s buf 2 then
                       (if cfgHas s buf 1 then (if cfgHas s buf 0 then 16 else 12) + 4
                        else (if cfgHas s buf 0 then 16 else 12)) + 4
                     else (if cfgHas s buf 1 then (if cfgHas s buf 0 then 16 else 12) + 4
                           else (if cfgHas s buf 0 then 16 else 12)))"
    by (simp add: cfgOff_def u)
qed

lemma cfgHas_simps:
  "cfgHas s buf 0 = (read16 (msbFirst s) buf 8 AND 0x0001 \<noteq> 0)"
  "cfgHas s buf 1 = (read16 (msbFirst s) buf 8 AND 0x0002 \<noteq> 0)"
  "cfgHas s buf 2 = (read16 (msbFirst s) buf 8 AND 0x0004 \<noteq> 0)"
  "cfgHas s buf 3 = (read16 (msbFirst s) buf 8 AND 0x0008 \<noteq> 0)"
  by (simp_all add: cfgHas_def)

lemma handleConfigureWindow_alt:
  "handleConfigureWindow s buf =
     (let c = cfgWindow s buf;
          rx = (if cfgHas s buf 0 then cfgSetX s c (cfgVal s buf 0) else (s, False));
          ry = (if cfgHas s buf 1 then cfgSetY (fst rx) c (cfgVal s buf 1) else (fst rx, False));
          rs = cfgResize (fst ry) c (if cfgHas s buf 2 then cfgVal s buf 2 else - 1)
                 (if cfgHas s buf 3 then cfgVal s buf 3 else - 1)
      in (fst rs, snd rs @ cfgMoveExpose (fst ry) (snd rx \<or> snd ry)))"
  unfolding handleConfigureWindow_def Let_def cfgVal_def cfgOff_simps cfgWindow_def
  unfolding cfgHas_simps
  by (simp cong: if_cong)

lemma cfgSetX_silent:
  "(case map_of (windowPositions s) c of None \<Rightarrow> True | Some p \<Rightarrow> pos_x p = v) \<Longrightarrow>
   cfgSetX s c v = (s, False)"
  by (auto simp add: cfgSetX_def split: option.splits)

lemma cfgSetY_silent:
  "(case map_of (windowPositions s) c of None \<Rightarrow> True | Some p \<Rightarrow> pos_y p = v) \<Longrightarrow>
   cfgSetY s c v = (s, False)"
  by (auto simp add: cfgSetY_def split: option.splits)

lemma cfgSetX_pos:
  "map_of (windowPositions (fst (cfgSetX s c v))) c
     = (case map_of (windowPositions s) c of None \<Rightarrow> None | Some p \<Rightarrow> Some (p\<lparr>pos_x := v\<rparr>))"
  by (simp add: cfgSetX_def update_conv' split: option.splits)

lemma cfgSetY_pos:
  "map_of (windowPositions (fst (cfgSetY s c v))) c
     = (case map_of (windowPositions s) c of None \<Rightarrow> None | Some p \<Rightarrow> Some (p\<lparr>pos_y := v\<rparr>))"
  by (simp add: cfgSetY_def update_conv' split: option.splits)

lemma cfgSet_msb:
  "msbFirst (fst (cfgSetX s c v)) = msbFirst s"
  "msbFirst (fst (cfgSetY s c v)) = msbFirst s"
  by (simp_all add: cfgSetX_def cfgSetY_def split: option.splits)

lemma cfgResize_same:
  assumes size: "windowSizes s c = Some (w, h)"
    and a: "a > 0 \<longrightarrow> a = w" and b: "b > 0 \<longrightarrow> b = h"
    and top: "c = hd (childWindows s) \<longrightarrow> pluginWidth s = w \<and> pluginHeight s = h"
  shows "cfgResize s c a b = (s, [])"
proof (cases "c \<in> set (childWindows s) \<and> (a > 0 \<or> b > 0)")
  case False
  then show ?thesis by (auto simp: cfgResize_def)
next
  case True
  have fw: "(if a > 0 then a else w) = w" using a by simp
  have fh: "(if b > 0 then b else h) = h" using b by simp
  have upd: "(windowSizes s)(c \<mapsto> (w, h)) = windowSizes s"
    using size by (simp add: map_upd_triv)
  show ?thesis
  proof (cases "c = hd (childWindows s)")
    case t: True
    with top have "pluginWidth s = w" "pluginHeight s = h" by simp_all
    then show ?thesis using True
      unfolding cfgResize_def Let_def size option.case fst_conv snd_conv fw fh upd
      by simp
  next
    case f: False
    then show ?thesis using True
      unfolding cfgResize_def Let_def size option.case fst_conv snd_conv fw fh upd
      by simp
  qed
qed

lemma cfgResize_fields:
  assumes g: "c \<in> set (childWindows s)" "a > 0 \<or> b > 0"
  defines "stored \<equiv> (case windowSizes s c of Some sz \<Rightarrow> sz | None \<Rightarrow> (0, 0))"
  defines "fw \<equiv> (if a > 0 then a else fst stored)"
  defines "fh \<equiv> (if b > 0 then b else snd stored)"
  shows "windowSizes (fst (cfgResize s c a b)) c = Some (fw, fh)"
    and "c = hd (childWindows s) \<longrightarrow>
           pluginWidth (fst (cfgResize s c a b)) = fw \<and> pluginHeight (fst (cfgResize s c a b)) = fh"
  using g unfolding stored_def fw_def fh_def
  by (auto simp: cfgResize_def Let_def)

lemma cfgResize_idem:
  "cfgResize (fst (cfgResize s c a b)) c a b = (fst (cfgResize s c a b), [])"
proof (cases "c \<in> set (childWindows s) \<and> (a > 0 \<or> b > 0)")
  case False
  then have "cfgResize s c a b = (s, [])" by (auto simp: cfgResize_def)
  then show ?thesis by simp
next
  case True
  define stored where "stored = (case windowSizes s c of Some sz \<Rightarrow> sz | None \<Rightarrow> (0, 0))"
  define fw where "fw = (if a > 0 then a else fst stored)"
  define fh where "fh = (if b > 0 then b else snd stored)"
  let ?s' = "fst (cfgResize s c a b)"
  have cw: "childWindows ?s' = childWindows s" by (simp add: cfgResize_def Let_def)
  from True cfgResize_fields [of c s a b]
  have sz: "windowSizes ?s' c = Some (fw, fh)"
    and top: "c = hd (childWindows ?s') \<longrightarrow> pluginWidth ?s' = fw \<and> pluginHeight ?s' = fh"
    unfolding stored_def fw_def fh_def cw by blast+
  show ?thesis
    by (rule cfgResize_same [OF sz _ _ top]) (simp_all add: fw_def fh_def)
qed

lemma cfgResize_frame2:
  "windowPositions (fst (cfgResize s w a b)) = windowPositions s"
  "msbFirst (fst (cfgResize s w a b)) = msbFirst s"
  by (simp_all add: cfgResize_def Let_def)

lemma cfgMoveExpose_False: "cfgMoveExpose s False = []"
  by (simp add: cfgMoveExpose_def)

lemma handleConfigureWindow_parts:
  assumes "rx = (if cfgHas s buf 0 then cfgSetX s (cfgWindow s buf) (cfgVal s buf 0) else (s, False))"
    and "ry = (if cfgHas s buf 1 then cfgSetY (fst rx) (cfgWindow s buf) (cfgVal s buf 1)
               else (fst rx, False))"
    and "a = (if cfgHas s buf 2 then cfgVal s buf 2 else - 1)"
    and "b = (if cfgHas s buf 3 then cfgVal s buf 3 else - 1)"
  shows "handleConfigureWindow s buf =
           (fst (cfgResize (fst ry) (cfgWindow s buf) a b),
            snd (cfgResize (fst ry) (cfgWindow s buf) a b) @ cfgMoveExpose (fst ry) (snd rx \<or> snd ry))"
  unfolding handleConfigureWindow_alt Let_def assms ..

lemma handleConfigureWindow_msb: "msbFirst (fst (handleConfigureWindow s buf)) = msbFirst s"
proof -
  define rx where "rx = (if cfgHas s buf 0 then cfgSetX s (cfgWindow s buf) (cfgVal s buf 0) else (s, False))"
  define ry where "ry = (if cfgHas s buf 1 then cfgSetY (fst rx) (cfgWindow s buf) (cfgVal s buf 1)
               else (fst rx, False))"
  have "msbFirst (fst rx) = msbFirst s" by (simp add: rx_def cfgSet_msb)
  then have "msbFirst (fst ry) = msbFirst s" by (simp add: ry_def cfgSet_msb)
  then show ?thesis
    by (simp add: handleConfigureWindow_parts [OF rx_def ry_def refl refl] cfgResize_frame2)
qed

lemma cfg_accessors_cong:
  assumes "msbFirst t = msbFirst s"
  shows "cfgWindow t buf = cfgWindow s buf"
    and "cfgHas t buf = cfgHas s buf"
    and "cfgVal t buf = cfgVal s buf"
proof -
  show "cfgWindow t buf = cfgWindow s buf" by (simp add: cfgWindow_def assms)
  show h: "cfgHas t buf = cfgHas s buf" by (rule ext) (simp add: cfgHas_def assms)
  show "cfgVal t buf = cfgVal s buf"
    by (rule ext) (simp only: cfgVal_def cfgOff_def h assms)
qed

lemma handleConfigureWindow_idem:
  "handleConfigureWindow (fst (handleConfigureWindow s buf)) buf
     = (fst (handleConfigureWindow s buf), [])"
proof -
  define c where "c = cfgWindow s buf"
  define rx where "rx = (if cfgHas s buf 0 then cfgSetX s (cfgWindow s buf) (cfgVal s buf 0) else (s, False))"
  define ry where "ry = (if cfgHas s buf 1 then cfgSetY (fst rx) (cfgWindow s buf) (cfgVal s buf 1) else (fst rx, False))"
  define a where "a = (if cfgHas s buf 2 then cfgVal s buf 2 else - 1)"
  define b where "b = (if cfgHas s buf 3 then cfgVal s buf 3 else - 1)"
  define t where "t = fst (cfgResize (fst ry) c a b)"
  have t: "fst (handleConfigureWindow s buf) = t"
    by (simp add: handleConfigureWindow_parts [OF rx_def ry_def a_def b_def] t_def c_def)
  have msb: "msbFirst t = msbFirst s"
    using handleConfigureWindow_msb [of s buf] t by simp
  note acc = cfg_accessors_cong [OF msb]
  have pos_t: "windowPositions t = windowPositions (fst ry)"
    by (simp add: t_def cfgResize_frame2)
  have x_ok: "cfgHas s buf 0 \<Longrightarrow> cfgSetX t c (cfgVal s buf 0) = (t, False)"
  proof (rule cfgSetX_silent)
    assume h: "cfgHas s buf 0"
    have "case map_of (windowPositions (fst rx)) c of None \<Rightarrow> True | Some p \<Rightarrow> pos_x p = cfgVal s buf 0"
      using h by (simp add: rx_def c_def cfgSetX_pos split: option.splits)
    then have "case map_of (windowPositions (fst ry)) c of None \<Rightarrow> True | Some p \<Rightarrow> pos_x p = cfgVal s buf 0"
      by (cases "cfgHas s buf 1") (auto simp: ry_def c_def cfgSetY_pos split: option.splits)
    then show "case map_of (windowPositions t) c of None \<Rightarrow> True | Some p \<Rightarrow> pos_x p = cfgVal s buf 0"
      by (simp add: pos_t)
  qed
  have y_ok: "cfgHas s buf 1 \<Longrightarrow> cfgSetY t c (cfgVal s buf 1) = (t, False)"
  proof (rule cfgSetY_silent)
    assume h: "cfgHas s buf 1"
    show "case map_of (windowPositions t) c of None \<Rightarrow> True | Some p \<Rightarrow> pos_y p = cfgVal s buf 1"
      using h unfolding pos_t ry_def
      by (simp add: c_def cfgSetY_pos split: option.splits)
  qed
  have r: "cfgResize t c a b = (t, [])"
    unfolding t_def by (rule cfgResize_idem)
  have rx': "(t, False) = (if cfgHas t buf 0 then cfgSetX t (cfgWindow t buf) (cfgVal t buf 0) else (t, False))"
    unfolding acc using x_ok by (simp add: c_def)
  have ry': "(t, False) = (if cfgHas t buf 1 then cfgSetY (fst (t, False)) (cfgWindow t buf) (cfgVal t buf 1)
               else (fst (t, False), False))"
    unfolding acc using y_ok by (simp add: c_def)
  have a': "a = (if cfgHas t buf 2 then cfgVal t buf 2 else - 1)" unfolding acc by (rule a_def)
  have b': "b = (if cfgHas t buf 3 then cfgVal t buf 3 else - 1)" unfolding acc by (rule b_def)
  have "handleConfigureWindow t buf = (t, [])"
    unfolding handleConfigureWindow_parts [OF rx' ry' a' b']
    using r by (simp add: acc c_def [symmetric] cfgMoveExpose_False)
  then show ?thesis by (simp add: t)
qed

lemma topDestroyed_fields:
  "childWindows topDestroyed = [0x200002]"
  "windowSizes topDestroyed = [0x200002 \<mapsto> (20, 20)]"
  "windowPositions topDestroyed = [(0x200002, \<lparr>pos_x = 0, pos_y = 0, pos_parent = 1\<rparr>)]"
  "msbFirst topDestroyed = False"
  "pluginWidth topDestroyed = 10"
  "pluginHeight topDestroyed = 10"
  "framebuffer topDestroyed = replicate 100 bgX11"
  by (auto simp add: topDestroyed_def scene_defs)

lemma cfgSameSize_fields:
  "cfgWindow topDestroyed cfgSameSize = 0x200002"
  "cfgHas topDestroyed cfgSameSize 0 = False"
  "cfgHas topDestroyed cfgSameSize 1 = False"
  "cfgHas topDestroyed cfgSameSize (Suc 0) = False"
  "cfgHas topDestroyed cfgSameSize 2 = True"
  "cfgHas topDestroyed cfgSameSize 3 = True"
  "cfgVal topDestroyed cfgSameSize 2 = 20"
  "cfgVal topDestroyed cfgSameSize 3 = 20"
  by (simp_all add: cfgWindow_def cfgHas_def cfgVal_def cfgOff_def topDestroyed_fields
        cfgSameSize_def req_defs upt_rec)

lemma cfgResize_topDestroyed:
  "snd (cfgResize topDestroyed 0x200002 20 20)
     = [ConfigureNotify 0x200002 20 20, Expose 0x200002 20 20]"
  "length (framebuffer (fst (cfgResize topDestroyed 0x200002 20 20))) = 400"
  by (simp_all add: cfgResize_def Let_def topDestroyed_fields vector_resize_def)

lemma cfgSameAll_fields:
  "cfgWindow twoChildren cfgSameAll = 0x200002"
  "cfgHas twoChildren cfgSameAll 0 = True"
  "cfgHas twoChildren cfgSameAll 1 = True"
  "cfgHas twoChildren cfgSameAll (Suc 0) = True"
  "cfgHas twoChildren cfgSameAll 2 = True"
  "cfgHas twoChildren cfgSameAll 3 = True"
  "cfgVal twoChildren cfgSameAll 0 = 2"
  "cfgVal twoChildren cfgSameAll 1 = 1"
  "cfgVal twoChildren cfgSameAll (Suc 0) = 1"
  "cfgVal twoChildren cfgSameAll 2 = 4"
  "cfgVal twoChildren cfgSameAll 3 = 4"
proof -
  have m: "msbFirst twoChildren = False" by (simp add: twoChildren_def scene_defs)
  show "cfgWindow twoChildren cfgSameAll = 0x200002"
  "cfgHas twoChildren cfgSameAll 0 = True"
  "cfgHas twoChildren cfgSameAll 1 = True"
  "cfgHas twoChildren cfgSameAll (Suc 0) = True"
  "cfgHas twoChildren cfgSameAll 2 = True"
  "cfgHas twoChildren cfgSameAll 3 = True"
  "cfgVal twoChildren cfgSameAll 0 = 2"
  "cfgVal twoChildren cfgSameAll 1 = 1"
  "cfgVal twoChildren cfgSameAll (Suc 0) = 1"
  "cfgVal twoChildren cfgSameAll 2 = 4"
  "cfgVal twoChildren cfgSameAll 3 = 4"
    by (simp_all add: cfgWindow_def cfgHas_def cfgVal_def cfgOff_def m
        cfgSameAll_def req_defs upt_rec)
qed

text \<open>
  C3, as amended.  For a window that is in the tables, a ConfigureWindow request whose
  x, y, width and height values (those present in the value mask) equal the stored
  position and size emits no event and leaves the whole state unchanged, provided that,
  when the window is the top-level plugin window \<open>childWindows[0]\<close>, its stored size is
  also the framebuffer's logical size \<open>pluginWidth\<close> by \<open>pluginHeight\<close> (the value the
  code compares a top-level resize with).  And for every state and every request,
  processing the same ConfigureWindow a second time right after the first emits nothing
  and changes nothing.
\<close>

theorem configure_with_stored_values_is_silent:
  assumes win: "cfgWindow s buf \<in> set (childWindows s)"
    and pos: "map_of (windowPositions s) (cfgWindow s buf) = Some p"
    and size: "windowSizes s (cfgWindow s buf) = Some (w, h)"
    and x: "cfgHas s buf 0 \<longrightarrow> cfgVal s buf 0 = pos_x p"
    and y: "cfgHas s buf 1 \<longrightarrow> cfgVal s buf 1 = pos_y p"
    and ww: "cfgHas s buf 2 \<longrightarrow> cfgVal s buf 2 = w"
    and hh: "cfgHas s buf 3 \<longrightarrow> cfgVal s buf 3 = h"
    and top: "cfgWindow s buf = hd (childWindows s) \<longrightarrow> pluginWidth s = w \<and> pluginHeight s = h"
  shows "handleConfigureWindow s buf = (s, []) \<and>
         handleConfigureWindow (fst (handleConfigureWindow s' buf')) buf'
           = (fst (handleConfigureWindow s' buf'), [])"
proof -
  have rx: "(s, False) = (if cfgHas s buf 0 then cfgSetX s (cfgWindow s buf) (cfgVal s buf 0) else (s, False))"
    using x pos by (simp add: cfgSetX_silent)
  have ry: "(s, False) = (if cfgHas s buf 1 then cfgSetY (fst (s, False)) (cfgWindow s buf) (cfgVal s buf 1)
               else (fst (s, False), False))"
    using y pos by (simp add: cfgSetY_silent)
  have rs: "cfgResize s (cfgWindow s buf) (if cfgHas s buf 2 then cfgVal s buf 2 else - 1)
                 (if cfgHas s buf 3 then cfgVal s buf 3 else - 1) = (s, [])"
    using ww hh by (intro cfgResize_same [OF size _ _ top]) auto
  have "handleConfigureWindow s buf = (s, [])"
    unfolding handleConfigureWindow_parts [OF rx ry refl refl]
    using rs by (simp add: cfgMoveExpose_False)
  then show ?thesis using handleConfigureWindow_idem by simp
qed




theorem configure_with_stored_values_is_silent_witness:
  "cfgWindow twoChildren cfgSameAll \<in> set (childWindows twoChildren) \<and>
   map_of (windowPositions twoChildren) (cfgWindow twoChildren cfgSameAll)
     = Some \<lparr>pos_x = 2, pos_y = 1, pos_parent = 0x200001\<rparr> \<and>
   windowSizes twoChildren (cfgWindow twoChildren cfgSameAll) = Some (4, 4) \<and>
   cfgHas twoChildren cfgSameAll 0 \<and> cfgHas twoChildren cfgSameAll 1 \<and>
   cfgHas twoChildren cfgSameAll 2 \<and> cfgHas twoChildren cfgSameAll 3 \<and>
   handleConfigureWindow twoChildren cfgSameAll = (twoChildren, []) \<and>
   handleConfigureWindow (fst (handleConfigureWindow topDestroyed cfgSameSize)) cfgSameSize
     = (fst (handleConfigureWindow topDestroyed cfgSameSize), [])"
proof -
  have win: "cfgWindow twoChildren cfgSameAll \<in> set (childWindows twoChildren)"
    by (simp add: cfgSameAll_fields twoChildren_fields)
  have pos: "map_of (windowPositions twoChildren) (cfgWindow twoChildren cfgSameAll)
     = Some \<lparr>pos_x = 2, pos_y = 1, pos_parent = 0x200001\<rparr>"
    by (simp add: cfgSameAll_fields twoChildren_fields)
  have size: "windowSizes twoChildren (cfgWindow twoChildren cfgSameAll) = Some (4, 4)"
    by (simp add: cfgSameAll_fields twoChildren_fields)
  have x: "cfgHas twoChildren cfgSameAll 0 \<longrightarrow> cfgVal twoChildren cfgSameAll 0
             = pos_x \<lparr>pos_x = 2, pos_y = 1, pos_parent = 0x200001\<rparr>"
   and y: "cfgHas twoChildren cfgSameAll 1 \<longrightarrow> cfgVal twoChildren cfgSameAll 1
             = pos_y \<lparr>pos_x = 2, pos_y = 1, pos_parent = 0x200001\<rparr>"
   and w: "cfgHas twoChildren cfgSameAll 2 \<longrightarrow> cfgVal twoChildren cfgSameAll 2 = 4"
   and h: "cfgHas twoChildren cfgSameAll 3 \<longrightarrow> cfgVal twoChildren cfgSameAll 3 = 4"
    by (simp_all add: cfgSameAll_fields)
  have top: "cfgWindow twoChildren cfgSameAll = hd (childWindows twoChildren) \<longrightarrow>
               pluginWidth twoChildren = 4 \<and> pluginHeight twoChildren = 4"
    by (simp add: cfgSameAll_fields twoChildren_fields)
  from configure_with_stored_values_is_silent
         [OF win pos size x y w h top, of topDestroyed cfgSameSize]
  show ?thesis using win pos size by (simp add: cfgSameAll_fields)
qed

text \<open>
  C3 as stated fails: after the first window is destroyed the second one is
  \<open>childWindows[0]\<close>, its stored size is 20 by 20 but the framebuffer is still 10 by 10;
  a ConfigureWindow repeating 20 by 20 sends ConfigureNotify and Expose and resizes the
  framebuffer.
\<close>

theorem configure_stored_size_still_notifies:
  "windowSizes topDestroyed (cfgWindow topDestroyed cfgSameSize) = Some (20, 20) \<and>
   \<not> cfgHas topDestroyed cfgSameSize 0 \<and> \<not> cfgHas topDestroyed cfgSameSize 1 \<and>
   cfgHas topDestroyed cfgSameSize 2 \<and> cfgVal topDestroyed cfgSameSize 2 = 20 \<and>
   cfgHas topDestroyed cfgSameSize 3 \<and> cfgVal topDestroyed cfgSameSize 3 = 20 \<and>
   snd (handleConfigureWindow topDestroyed cfgSameSize)
     = [ConfigureNotify 0x200002 20 20, Expose 0x200002 20 20] \<and>
   length (framebuffer topDestroyed) = 100 \<and>
   length (framebuffer (fst (handleConfigureWindow topDestroyed cfgSameSize))) = 400"
proof -
  have rx: "(topDestroyed, False) =
      (if cfgHas topDestroyed cfgSameSize 0
       then cfgSetX topDestroyed (cfgWindow topDestroyed cfgSameSize) (cfgVal topDestroyed cfgSameSize 0)
       else (topDestroyed, False))"
    by (simp add: cfgSameSize_fields)
  have ry: "(topDestroyed, False) =
      (if cfgHas topDestroyed cfgSameSize 1
       then cfgSetY (fst (topDestroyed, False)) (cfgWindow topDestroyed cfgSameSize)
              (cfgVal topDestroyed cfgSameSize 1)
       else (fst (topDestroyed, False), False))"
    by (simp add: cfgSameSize_fields)
  have a: "20 = (if cfgHas topDestroyed cfgSameSize 2 then cfgVal topDestroyed cfgSameSize 2 else - 1)"
    by (simp add: cfgSameSize_fields)
  have b: "20 = (if cfgHas topDestroyed cfgSameSize 3 then cfgVal topDestroyed cfgSameSize 3 else - 1)"
    by (simp add: cfgSameSize_fields)
  show ?thesis
    unfolding handleConfigureWindow_parts [OF rx ry a b]
    by (simp add: cfgSameSize_fields topDestroyed_fields cfgResize_topDestroyed cfgMoveExpose_False)
qed

section \<open>GetGeometry\<close>


















lemma bit_length_le: "n < 2 ^ k \<Longrightarrow> bit_length n \<le> k"
proof (induction k arbitrary: n)
  case 0
  then show ?case by (simp add: bit_length.simps)
next
  case (Suc k)
  show ?case
  proof (cases "n = 0")
    case True
    then show ?thesis by (simp add: bit_length.simps)
  next
    case False
    from Suc.prems have "n div 2 < 2 ^ k" by simp
    from Suc.IH [OF this] False show ?thesis by (subst bit_length.simps) simp
  qed
qed

lemma f32_round_exact:
  assumes "m < 2 ^ 24" "- 149 \<le> e" "e \<le> 104"
  shows "f32_round neg m e = Finite (if neg then - int m else int m) e"
proof -
  from bit_length_le [OF assms(1)] have b: "bit_length m \<le> 24" .
  with assms have sh: "nat (max (int (bit_length m) - 24) (- 149 - e)) = 0" by simp
  have r: "roundShift m 0 = m" by (simp add: roundShift_def)
  from b assms have o: "\<not> int (bit_length m) + e > 128" by simp
  show ?thesis
    unfolding f32_round_def Let_def sh r using o by simp
qed

text \<open>
  The scaled size is the exact product, truncated, whenever the product of the size and
  the scale factor's significand fits the 24 bits of a \<open>float\<close>; otherwise it is the
  truncation of the product rounded to 24 bits.
\<close>

lemma scaleDim_exact:
  assumes v: "\<bar>v\<bar> < 2 ^ 24" and p: "\<bar>v * m\<bar> < 2 ^ 24" and e: "- 149 \<le> e" "e \<le> 104"
  shows "scaleDim v (Finite m e) = f32_to_int (Finite (v * m) e)"
proof -
  have a: "f32_of_int v = Finite v 0"
    unfolding f32_of_int_def using v by (subst f32_round_exact) auto
  have "f32_mul (Finite v 0) (Finite m e) = Finite (v * m) e"
    using p e by (simp add: f32_round_exact) (auto simp: zero_less_mult_iff mult_less_0_iff abs_if split: if_splits)
  with a show ?thesis by (simp add: scaleDim_def)
qed

lemma scaleDim_one: "\<bar>v\<bar> < 2 ^ 24 \<Longrightarrow> scaleDim v (Finite 1 0) = Some v"
  by (subst scaleDim_exact) (auto simp: f32_to_int_def)






lemma zeroWidthFirst_fields:
  "childWindows zeroWidthFirst = [0x200001, 0x200002]"
  "windowSizes zeroWidthFirst = [0x200001 \<mapsto> (0, 5), 0x200002 \<mapsto> (6, 5)]"
  "windowPositions zeroWidthFirst =
     [(0x200001, \<lparr>pos_x = 0, pos_y = 0, pos_parent = 1\<rparr>),
      (0x200002, \<lparr>pos_x = 0, pos_y = 0, pos_parent = 1\<rparr>)]"
  "msbFirst zeroWidthFirst = False"
  "pluginWidth zeroWidthFirst = 6"
  "pluginHeight zeroWidthFirst = 5"
  "originalChildW zeroWidthFirst = 6"
  "originalChildH zeroWidthFirst = 5"
  "uiScale zeroWidthFirst = Finite 1 0"
  by (auto simp add: zeroWidthFirst_def scene_defs)

lemma cfgHeightOnly_fields:
  "cfgWindow zeroWidthFirst cfgHeightOnly = 0x200001"
  "cfgHas zeroWidthFirst cfgHeightOnly 0 = False"
  "cfgHas zeroWidthFirst cfgHeightOnly 1 = False"
  "cfgHas zeroWidthFirst cfgHeightOnly (Suc 0) = False"
  "cfgHas zeroWidthFirst cfgHeightOnly 2 = False"
  "cfgHas zeroWidthFirst cfgHeightOnly 3 = True"
  "cfgVal zeroWidthFirst cfgHeightOnly 3 = 7"
  by (simp_all add: cfgWindow_def cfgHas_def cfgVal_def cfgOff_def zeroWidthFirst_fields
        cfgHeightOnly_def req_defs upt_rec)

lemma heightOnly_eq:
  "fst (handleConfigureWindow zeroWidthFirst cfgHeightOnly)
     = fst (cfgResize zeroWidthFirst 0x200001 (- 1) 7)"
proof -
  have rx: "(zeroWidthFirst, False) =
      (if cfgHas zeroWidthFirst cfgHeightOnly 0
       then cfgSetX zeroWidthFirst (cfgWindow zeroWidthFirst cfgHeightOnly)
              (cfgVal zeroWidthFirst cfgHeightOnly 0)
       else (zeroWidthFirst, False))"
    by (simp add: cfgHeightOnly_fields)
  have ry: "(zeroWidthFirst, False) =
      (if cfgHas zeroWidthFirst cfgHeightOnly 1
       then cfgSetY (fst (zeroWidthFirst, False)) (cfgWindow zeroWidthFirst cfgHeightOnly)
              (cfgVal zeroWidthFirst cfgHeightOnly 1)
       else (fst (zeroWidthFirst, False), False))"
    by (simp add: cfgHeightOnly_fields)
  have a: "- 1 = (if cfgHas zeroWidthFirst cfgHeightOnly 2
                  then cfgVal zeroWidthFirst cfgHeightOnly 2 else - 1)"
    by (simp add: cfgHeightOnly_fields)
  have b: "7 = (if cfgHas zeroWidthFirst cfgHeightOnly 3
                then cfgVal zeroWidthFirst cfgHeightOnly 3 else - 1)"
    by (simp add: cfgHeightOnly_fields)
  show ?thesis
    unfolding handleConfigureWindow_parts [OF rx ry a b]
    by (simp add: cfgHeightOnly_fields)
qed

lemma heightOnly_fields:
  "windowSizes (fst (handleConfigureWindow zeroWidthFirst cfgHeightOnly))
     = [0x200001 \<mapsto> (0, 7), 0x200002 \<mapsto> (6, 5)]"
  "windowPositions (fst (handleConfigureWindow zeroWidthFirst cfgHeightOnly))
     = windowPositions zeroWidthFirst"
  "msbFirst (fst (handleConfigureWindow zeroWidthFirst cfgHeightOnly)) = False"
  "pluginWidth (fst (handleConfigureWindow zeroWidthFirst cfgHeightOnly)) = 0"
  "originalChildW (fst (handleConfigureWindow zeroWidthFirst cfgHeightOnly)) = 6"
  "uiScale (fst (handleConfigureWindow zeroWidthFirst cfgHeightOnly)) = Finite 1 0"
  by (auto simp add: heightOnly_eq cfgResize_def Let_def zeroWidthFirst_fields)

text \<open>
  Why every window has to be created with a positive width: the first window here has
  width 0, so resizing it in height only sets the recorded plugin width to 0, and the next
  window created takes over as the original size.  The root's geometry, 6 by 5 before,
  is 100 by 100 afterwards.
\<close>

lemma getGeometry_root_follows_a_later_window:
  "handleGetGeometry zeroWidthFirst (mkbuf (reqGetGeometry False 1))
     = Some \<lparr>geo_root = 1, geo_x = 0, geo_y = 0, geo_width = 6, geo_height = 5\<rparr> \<and>
   handleGetGeometry recreated (mkbuf (reqGetGeometry False 1))
     = Some \<lparr>geo_root = 1, geo_x = 0, geo_y = 0, geo_width = 100, geo_height = 100\<rparr>"
proof -
  have a: "handleGetGeometry zeroWidthFirst (mkbuf (reqGetGeometry False 1))
     = Some \<lparr>geo_root = 1, geo_x = 0, geo_y = 0, geo_width = 6, geo_height = 5\<rparr>"
    by (simp add: zeroWidthFirst_fields handleGetGeometry_def sendReplyGetGeometry_def Let_def
          req_defs scaleDim_one kRootWindowId_def)
  have r: "recreated = fst (handleCreateWindow
             (fst (handleConfigureWindow zeroWidthFirst cfgHeightOnly))
             (mkbuf (reqCreateWindow False 0x200003 1 0 0 100 100)))"
    by (simp add: recreated_def run_def)
  have f: "windowSizes recreated 1 = None" "map_of (windowPositions recreated) 1 = None"
    "msbFirst recreated = False" "originalChildW recreated = 100"
    "originalChildH recreated = 100" "uiScale recreated = Finite 1 0"
    by (simp_all add: r handleCreateWindow_def Let_def heightOnly_fields zeroWidthFirst_fields
          req_defs)
  have b: "handleGetGeometry recreated (mkbuf (reqGetGeometry False 1))
     = Some \<lparr>geo_root = 1, geo_x = 0, geo_y = 0, geo_width = 100, geo_height = 100\<rparr>"
    by (simp add: f handleGetGeometry_def sendReplyGetGeometry_def Let_def
          req_defs scaleDim_one kRootWindowId_def)
  from a b show ?thesis by simp
qed




section \<open>Reading requests from the socket\<close>

lemma join16:
  "push_bit 8 (ucast (ucast (drop_bit 8 v) :: byte)) OR ucast (ucast v :: byte) = (v :: u16)"
  (is "?l = v")
proof (rule bit_word_eqI)
  fix n assume "n < LENGTH(16)"
  then show "bit ?l n = bit v n"
    by (cases "n < 8") (auto simp: bit_simps)
qed

lemma join32:
  "push_bit 24 (ucast (ucast (drop_bit 24 v) :: byte)) OR push_bit 16 (ucast (ucast (drop_bit 16 v) :: byte))
     OR push_bit 8 (ucast (ucast (drop_bit 8 v) :: byte)) OR ucast (ucast v :: byte) = (v :: u32)"
  (is "?l = v")
proof (rule bit_word_eqI)
  fix n assume "n < LENGTH(32)"
  then show "bit ?l n = bit v n"
    by (cases "n < 8"; cases "n < 16"; cases "n < 24") (auto simp: bit_simps)
qed

lemma read16_enc16:
  "p off = enc16 msb v ! 0 \<Longrightarrow> p (Suc off) = enc16 msb v ! 1 \<Longrightarrow> read16 msb p off = v"
  using join16 [of v]
  by (cases msb) (simp_all add: read16_def enc16_def Let_def or.commute)

lemma read32_enc32:
  "p off = enc32 msb v ! 0 \<Longrightarrow> p (Suc off) = enc32 msb v ! 1 \<Longrightarrow>
   p (Suc (Suc off)) = enc32 msb v ! 2 \<Longrightarrow> p (Suc (Suc (Suc off))) = enc32 msb v ! 3 \<Longrightarrow>
   read32 msb p off = v"
  using join32 [of v]
  by (cases msb) (simp_all add: read32_def enc32_def Let_def numeral_2_eq_2 numeral_3_eq_3 ac_simps)

lemma length_enc [simp]: "length (enc16 msb v) = 2" "length (enc32 msb w) = 4"
  by (simp_all add: enc16_def enc32_def Let_def)

lemma store_in: "off \<le> i \<Longrightarrow> i < off + length bs \<Longrightarrow> store p off bs i = bs ! (i - off)"
  by (simp add: store_def)

lemma store_out: "i < off \<or> off + length bs \<le> i \<Longrightarrow> store p off bs i = p i"
  by (auto simp: store_def)

lemma recvAll_exact: "length a = n \<Longrightarrow> recvAll n (a @ b) = (True, a, b)"
  by (simp add: recvAll_def)

lemma recvRequest_body:
  assumes "recvAll 4 sock = (True, hdr, sock1)"
    and "buf = store buf0 0 hdr"
    and "read16 msb buf 2 \<noteq> 0" "buf 0 \<noteq> 72" "buf 0 \<noteq> 2" "buf 0 \<noteq> 4" "buf 0 \<noteq> 38"
    and "extra = (if (unat (read16 msb buf 2) - 1) * 4 > 65536 then 65536
                  else (unat (read16 msb buf 2) - 1) * 4)"
    and "recvAll extra sock1 = (ok3, body, sock2)"
  shows "recvRequest msb buf0 sock =
           Request (buf 0) (read16 msb buf 2)
             (if extra > 256 - 4 then buf else store buf 4 body) sock2"
  unfolding recvRequest_def using assms by (auto simp: Let_def split: if_splits)

text \<open>
  A request whose body is at most 65536 bytes is read off the socket whole, whatever its
  opcode (PutImage and the three opcodes whose handlers read the body apart): the stream
  continues with the next request.  A body of more than 252 bytes is dropped and the
  handler is handed the buffer with the header only.
\<close>

lemma recvRequest_generic:
  assumes op: "op \<noteq> 72" "op \<noteq> 2" "op \<noteq> 4" "op \<noteq> 38"
    and len: "len \<noteq> 0" and lb: "length body = (unat len - 1) * 4"
    and cap: "length body \<le> 65536"
  shows "recvRequest msb buf0 ([op, d] @ enc16 msb len @ body @ rest)
         = Request op len
             (if 252 < length body then store buf0 0 ([op, d] @ enc16 msb len)
              else store (store buf0 0 ([op, d] @ enc16 msb len)) 4 body) rest"
proof -
  define hdr where "hdr = [op, d] @ enc16 msb len"
  define buf1 where "buf1 = store buf0 0 hdr"
  have lh: "length hdr = 4" by (simp add: hdr_def)
  have b0: "buf1 0 = op"
    and b2: "buf1 2 = enc16 msb len ! 0" and b3: "buf1 (Suc 2) = enc16 msb len ! 1"
    by (simp_all add: buf1_def store_def hdr_def nth_append)
  have rL: "read16 msb buf1 2 = len" by (rule read16_enc16 [OF b2 b3])
  have h: "recvAll 4 (hdr @ body @ rest) = (True, hdr, body @ rest)"
    by (rule recvAll_exact [OF lh])
  have e: "length body = (if (unat (read16 msb buf1 2) - 1) * 4 > 65536 then 65536
                          else (unat (read16 msb buf1 2) - 1) * 4)"
    unfolding rL using lb cap by simp
  have b: "recvAll (length body) (body @ rest) = (True, body, rest)"
    by (rule recvAll_exact) simp
  have "recvRequest msb buf0 (hdr @ body @ rest)
         = Request (buf1 0) (read16 msb buf1 2)
             (if length body > 256 - 4 then buf1 else store buf1 4 body) rest"
    by (rule recvRequest_body [OF h buf1_def _ _ _ _ _ e b]) (simp_all add: rL b0 op len)
  then have "recvRequest msb buf0 (hdr @ body @ rest)
         = Request op len (if length body > 256 - 4 then buf1 else store buf1 4 body) rest"
    by (simp only: b0 rL)
  then show ?thesis unfolding buf1_def hdr_def by simp
qed

lemma bigChangeProperty_split:
  "bigChangeProperty = [18, 0, 2, 0x40] @ replicate 65536 0xAA @ [0xAA, 0xAA, 0xAA, 0xAA]"
proof -
  have "replicate 65540 (0xAA::byte) = replicate 65536 0xAA @ replicate 4 0xAA"
    by (simp add: replicate_add [symmetric])
  also have "replicate 4 (0xAA::byte) = [0xAA, 0xAA, 0xAA, 0xAA]"
    by (simp add: numeral_eq_Suc)
  finally show ?thesis by (simp add: bigChangeProperty_def enc16_def)
qed

text \<open>
  C8.  The generic body read cuts the number of bytes it reads at 65536, so a request
  with a longer body is not read whole.  After a ChangeProperty request of 16386 units
  (65544 bytes, a length the connection setup allows), followed by a MapWindow request,
  the loop has read 65540 bytes and leaves the last 4 bytes of the body on the socket;
  the next pass takes them for a request header (opcode \<open>0xAA\<close>, length \<open>0xAAAA\<close>) and
  reads the MapWindow request as part of that request's body.
\<close>

theorem oversized_body_is_only_partly_read:
  "length bigChangeProperty = 4 * 16386 \<and>
   recvRequest False junk (bigChangeProperty @ reqMapWindow False 0x200001)
     = Request 18 16386 (store junk 0 [18, 0, 2, 0x40])
         ([0xAA, 0xAA, 0xAA, 0xAA] @ reqMapWindow False 0x200001) \<and>
   recvRequest False junk' ([0xAA, 0xAA, 0xAA, 0xAA] @ reqMapWindow False 0x200001)
     = Request 0xAA 0xAAAA (store junk' 0 [0xAA, 0xAA, 0xAA, 0xAA]) []"
proof -
  have l: "length bigChangeProperty = 4 * 16386" by (simp add: bigChangeProperty_def enc16_def)
  have a: "recvRequest False junk (bigChangeProperty @ reqMapWindow False 0x200001)
        = Request 18 16386 (store junk 0 [18, 0, 2, 0x40])
            ([0xAA, 0xAA, 0xAA, 0xAA] @ reqMapWindow False 0x200001)"
    unfolding bigChangeProperty_split
    by (simp add: recvRequest_def recvAll_def store_def read16_def Let_def)
  have b: "recvRequest False junk' ([0xAA, 0xAA, 0xAA, 0xAA] @ reqMapWindow False 0x200001)
        = Request 0xAA 0xAAAA (store junk' 0 [0xAA, 0xAA, 0xAA, 0xAA]) []"
    by (simp add: recvRequest_def recvAll_def store_def read16_def Let_def reqMapWindow_def enc16_def enc32_def)
  show ?thesis using l a b by simp
qed

end
